theory Spec2Isabelle
  imports Main "HOL-Library.AList"
begin

section \<open>Bounded Cache: \<open>LRUCache\<close> (electron/lru-cache)\<close>

text \<open>
  The cache is a JavaScript \<open>Map\<close> from keys to entries together with an array
  \<open>accessOrder\<close> of keys, least recently used first. A \<open>Map\<close> keeps its keys in
  insertion order and holds every key once, so it is modelled as an association list:
  \<open>map_of\<close> is \<open>Map.get\<close>, \<open>AList.update\<close> is \<open>Map.set\<close> (an existing key keeps
  its position, a new key goes to the end), \<open>AList.delete\<close> is \<open>Map.delete\<close> and
  \<open>length\<close> is \<open>Map.size\<close>. Timestamps are the millisecond readings of \<open>Date.now()\<close>;
  every operation takes the reading of the clock as its first argument \<open>now\<close>, and
  all the calls of \<open>Date.now()\<close> that one operation makes return that reading. Keys
  are values other than \<open>undefined\<close>.
\<close>

record 'v CacheEntry =
  entry_value :: 'v
  timestamp :: int
  accessCount :: nat

record ('k, 'v) LRUCache =
  cache :: "('k \<times> 'v CacheEntry) list"
  accessOrder :: "'k list"
  maxSize :: int
  maxAge :: int

text \<open>\<open>constructor(maxSize = 1000, maxAge = 30 * 60 * 1000)\<close>\<close>

definition LRUCache_new :: "int \<Rightarrow> int \<Rightarrow> ('k, 'v) LRUCache" where
  "LRUCache_new max_size max_age =
     \<lparr>cache = [], accessOrder = [], maxSize = max_size, maxAge = max_age\<rparr>"

definition LRUCache_default :: "('k, 'v) LRUCache" where
  "LRUCache_default = LRUCache_new 1000 (30 * 60 * 1000)"

text \<open>The test \<open>Date.now() - entry.timestamp > this.maxAge\<close>.\<close>

definition expired :: "int \<Rightarrow> int \<Rightarrow> 'v CacheEntry \<Rightarrow> bool" where
  "expired now max_age entry = (now - timestamp entry > max_age)"

text \<open>
  \<open>delete(key)\<close>: \<open>indexOf\<close> followed by \<open>splice(index, 1)\<close> removes the first
  occurrence of the key from \<open>accessOrder\<close>, which is \<open>remove1\<close>.
\<close>

definition LRUCache_delete :: "'k \<Rightarrow> ('k, 'v) LRUCache \<Rightarrow> bool \<times> ('k, 'v) LRUCache" where
  "LRUCache_delete key c =
     (if map_of (cache c) key \<noteq> None
      then (True, c\<lparr>cache := AList.delete key (cache c),
                    accessOrder := remove1 key (accessOrder c)\<rparr>)
      else (False, c))"

definition LRUCache_get :: "int \<Rightarrow> 'k \<Rightarrow> ('k, 'v) LRUCache \<Rightarrow> 'v option \<times> ('k, 'v) LRUCache" where
  "LRUCache_get now key c =
     (case map_of (cache c) key of
        None \<Rightarrow> (None, c)
      | Some entry \<Rightarrow>
          if expired now (maxAge c) entry then (None, snd (LRUCache_delete key c))
          else (Some (entry_value entry),
                c\<lparr>cache := AList.update key
                     (entry\<lparr>accessCount := accessCount entry + 1, timestamp := now\<rparr>) (cache c),
                  accessOrder := remove1 key (accessOrder c) @ [key]\<rparr>))"

definition LRUCache_has :: "int \<Rightarrow> 'k \<Rightarrow> ('k, 'v) LRUCache \<Rightarrow> bool \<times> ('k, 'v) LRUCache" where
  "LRUCache_has now key c =
     (case map_of (cache c) key of
        None \<Rightarrow> (False, c)
      | Some entry \<Rightarrow>
          if expired now (maxAge c) entry then (False, snd (LRUCache_delete key c))
          else (True, c))"

definition LRUCache_clear :: "('k, 'v) LRUCache \<Rightarrow> ('k, 'v) LRUCache" where
  "LRUCache_clear c = c\<lparr>cache := [], accessOrder := []\<rparr>"

definition LRUCache_size :: "('k, 'v) LRUCache \<Rightarrow> nat" where
  "LRUCache_size c = length (cache c)"

definition LRUCache_keys :: "('k, 'v) LRUCache \<Rightarrow> 'k list" where
  "LRUCache_keys c = map fst (cache c)"

definition LRUCache_values :: "('k, 'v) LRUCache \<Rightarrow> 'v list" where
  "LRUCache_values c = map (\<lambda>(key, entry). entry_value entry) (cache c)"

definition LRUCache_entries :: "('k, 'v) LRUCache \<Rightarrow> ('k \<times> 'v) list" where
  "LRUCache_entries c = map (\<lambda>(key, entry). (key, entry_value entry)) (cache c)"

text \<open>
  \<open>cleanupExpired()\<close> collects the expired keys in a first pass over the map and deletes
  them in a second.
\<close>

definition cleanupExpired :: "int \<Rightarrow> ('k, 'v) LRUCache \<Rightarrow> ('k, 'v) LRUCache" where
  "cleanupExpired now c =
     (let expiredKeys = map fst (filter (\<lambda>(key, entry). expired now (maxAge c) entry) (cache c))
      in fold (\<lambda>key c'. snd (LRUCache_delete key c')) expiredKeys c)"

text \<open>
  The loop of \<open>evictLeastRecentlyUsed()\<close>,
  \<open>while (this.cache.size >= this.maxSize && this.accessOrder.length > 0)\<close>, which
  shifts the first key off \<open>accessOrder\<close> and deletes it from the map, as a recursion
  on \<open>accessOrder\<close>.
\<close>

fun evict_while :: "int \<Rightarrow> ('k \<times> 'e) list \<Rightarrow> 'k list \<Rightarrow> ('k \<times> 'e) list \<times> 'k list" where
  "evict_while m cs [] = (cs, [])"
| "evict_while m cs (lruKey # ks) =
     (if int (length cs) \<ge> m then evict_while m (AList.delete lruKey cs) ks
      else (cs, lruKey # ks))"

definition evictLeastRecentlyUsed :: "int \<Rightarrow> ('k, 'v) LRUCache \<Rightarrow> ('k, 'v) LRUCache" where
  "evictLeastRecentlyUsed now c =
     (let c' = cleanupExpired now c;
          (cs, ks) = evict_while (maxSize c') (cache c') (accessOrder c')
      in c'\<lparr>cache := cs, accessOrder := ks\<rparr>)"

definition LRUCache_set :: "int \<Rightarrow> 'k \<Rightarrow> 'v \<Rightarrow> ('k, 'v) LRUCache \<Rightarrow> ('k, 'v) LRUCache" where
  "LRUCache_set now key v c =
     (case map_of (cache c) key of
        Some entry \<Rightarrow>
          c\<lparr>cache := AList.update key
               (entry\<lparr>entry_value := v, timestamp := now,
                      accessCount := accessCount entry + 1\<rparr>) (cache c),
            accessOrder := remove1 key (accessOrder c) @ [key]\<rparr>
      | None \<Rightarrow>
          (let c' = (if int (length (cache c)) \<ge> maxSize c
                     then evictLeastRecentlyUsed now c else c)
           in c'\<lparr>cache := AList.update key
                    \<lparr>entry_value = v, timestamp = now, accessCount = 1\<rparr> (cache c'),
                  accessOrder := accessOrder c' @ [key]\<rparr>))"

text \<open>\<open>forceCleanup()\<close> returns the number of entries the purge removed.\<close>

definition LRUCache_forceCleanup :: "int \<Rightarrow> ('k, 'v) LRUCache \<Rightarrow> nat \<times> ('k, 'v) LRUCache" where
  "LRUCache_forceCleanup now c =
     (let c' = cleanupExpired now c in (length (cache c) - length (cache c'), c'))"

text \<open>
  A run of accesses to one key: each is a \<open>get\<close> or a \<open>set\<close> of that key at a clock
  reading. The run records, for every \<open>get\<close>, whether it was a hit.
\<close>

datatype 'v access = Access_get | Access_set 'v

fun access_key :: "'k \<Rightarrow> (int \<times> 'v access) list \<Rightarrow> ('k, 'v) LRUCache \<Rightarrow> bool list \<times> ('k, 'v) LRUCache" where
  "access_key key [] c = ([], c)"
| "access_key key ((now, Access_get) # as) c =
     (let (r, c') = LRUCache_get now key c;
          (hits, c'') = access_key key as c'
      in ((r \<noteq> None) # hits, c''))"
| "access_key key ((now, Access_set v) # as) c =
     access_key key as (LRUCache_set now key v c)"

text \<open>
  \<open>never_idle max_age prev ts\<close>: the clock readings \<open>ts\<close>, taken in turn, are each at
  most \<open>max_age\<close> after the one before, starting from \<open>prev\<close>.
\<close>

fun never_idle :: "int \<Rightarrow> int \<Rightarrow> int list \<Rightarrow> bool" where
  "never_idle max_age prev [] = True"
| "never_idle max_age prev (t # ts) = (t - prev \<le> max_age \<and> never_idle max_age t ts)"







section \<open>Watch Service: \<open>FileWatcherService\<close> (electron/file-watcher)\<close>

subsection \<open>The file system the service reads\<close>

text \<open>
  A directory tree as \<open>readdirSync(path, {withFileTypes: true})\<close> shows it: a regular
  file, a directory with its entries in listing order, a directory that cannot be read
  (or a path that is missing: \<open>readdirSync\<close> throws), and any other kind of entry
  (socket, link: neither \<open>isFile()\<close> nor \<open>isDirectory()\<close>).
\<close>

datatype fsnode = FsFile | FsOther | FsUnreadable | FsDir "(string \<times> fsnode) list"

fun isFile :: "fsnode \<Rightarrow> bool" where
  "isFile FsFile = True"
| "isFile _ = False"

fun isDirectory :: "fsnode \<Rightarrow> bool" where
  "isDirectory (FsDir _) = True"
| "isDirectory FsUnreadable = True"
| "isDirectory _ = False"

text \<open>\<open>readdirSync\<close>: \<open>None\<close> when it throws.\<close>

fun readdirSync :: "fsnode \<Rightarrow> (string \<times> fsnode) list option" where
  "readdirSync (FsDir entries) = Some entries"
| "readdirSync _ = None"

subsection \<open>Strings\<close>

definition toLowerCase_char :: "char \<Rightarrow> char" where
  "toLowerCase_char c =
     (case map_of (zip ''ABCDEFGHIJKLMNOPQRSTUVWXYZ'' ''abcdefghijklmnopqrstuvwxyz'') c of
        Some l \<Rightarrow> l | None \<Rightarrow> c)"

definition toLowerCase :: "string \<Rightarrow> string" where
  "toLowerCase s = map toLowerCase_char s"

fun startsWith :: "string \<Rightarrow> string \<Rightarrow> bool" where
  "startsWith s [] = True"
| "startsWith [] (p # ps) = False"
| "startsWith (c # cs) (p # ps) = (c = p \<and> startsWith cs ps)"

text \<open>\<open>s.includes(pattern)\<close>: the pattern occurs somewhere in \<open>s\<close>.\<close>

fun str_includes :: "string \<Rightarrow> string \<Rightarrow> bool" where
  "str_includes [] pattern = (pattern = [])"
| "str_includes (c # cs) pattern = (startsWith (c # cs) pattern \<or> str_includes cs pattern)"

text \<open>
  The ignore patterns with a star are turned into a regular expression by
  \<open>new RegExp(pattern.replace(/\*/g, '.*'))\<close> and tried with \<open>test\<close>: the star
  stands for any run of characters other than line breaks, a dot (a regular-expression
  dot now) for one such character, every other character of the patterns in the code for
  itself, and the match may start anywhere in the string.
\<close>

definition line_break :: "char \<Rightarrow> bool" where
  "line_break c = (c = CHR 0x0A \<or> c = CHR 0x0D)"

fun regex_here :: "string \<Rightarrow> string \<Rightarrow> bool" where
  "regex_here [] s = True"
| "regex_here (p # ps) [] = (p = CHR ''*'' \<and> regex_here ps [])"
| "regex_here (p # ps) (c # cs) =
     (if p = CHR ''*'' then regex_here ps (c # cs) \<or> (\<not> line_break c \<and> regex_here (p # ps) cs)
      else if p = CHR ''.'' then \<not> line_break c \<and> regex_here ps cs
      else p = c \<and> regex_here ps cs)"

fun regex_test :: "string \<Rightarrow> string \<Rightarrow> bool" where
  "regex_test pattern [] = regex_here pattern []"
| "regex_test pattern (c # cs) = (regex_here pattern (c # cs) \<or> regex_test pattern cs)"

text \<open>
  \<open>path.join(currentPath, name)\<close> and \<open>path.relative(dirPath, fullPath)\<close> for a plain
  entry name under a normalised root: the relative path of an entry is the relative
  path of its directory, a separator and the name.
\<close>

definition path_join :: "string \<Rightarrow> string \<Rightarrow> string" where
  "path_join dir name = dir @ ''/'' @ name"

definition relative_join :: "string \<Rightarrow> string \<Rightarrow> string" where
  "relative_join rel name = (if rel = [] then name else rel @ ''/'' @ name)"

subsection \<open>State of the service\<close>

datatype watcher = ChokidarWatcher string

record watch_options =
  opt_depth :: "nat option"
  opt_usePolling :: "bool option"
  opt_interval :: "nat option"
  opt_ignored :: "string list option"

record js_error =
  err_code :: string
  err_message :: string

datatype change_type = Add | Change | Unlink

record change_event =
  ev_type :: change_type
  ev_path :: string
  ev_relativePath :: string

text \<open>The notifications of the service, in the order \<open>this.emit\<close> sends them.\<close>

datatype emitted_event =
    Emit_directory_skipped string string
  | Emit_ready string
  | Emit_error string js_error
  | Emit_file_change string change_event
  | Emit_batch_change string "change_event list"
  | Emit_directory_failed string string
  | Emit_fallback_activated string
  | Emit_fallback_reset

text \<open>
  The fields of the class. The maps are in insertion order; a \<open>Set\<close> is a list without
  repetition. Three fields record what the service does to the outside: the notifications
  it emitted, the calls of the operating system's watch primitive (chokidar's \<open>watch\<close>)
  it issued, the watchers it closed, and the retry timers it has scheduled with
  \<open>setTimeout\<close> and that have not fired yet.
\<close>

record FileWatcherService =
  watchers :: "(string \<times> watcher option) list"
  fileIndex :: "(string \<times> string list) list"
  changeQueue :: "(string \<times> change_event list) list"
  watcherCount :: int
  emfileRetryAttempts :: "(string \<times> nat) list"
  failedDirectories :: "string list"
  fallbackMode :: bool
  fallbackReason :: "string option"
  isWatchingDisabled :: bool
  watchingStrategy :: string
  emitted :: "emitted_event list"
  os_watch_calls :: "string list"
  closed_watchers :: "watcher list"
  pending_retries :: "string list"

definition maxWatchers :: int where "maxWatchers = 25"
definition retryDelay :: nat where "retryDelay = 1000"

definition FileWatcherService_new :: FileWatcherService where
  "FileWatcherService_new =
     \<lparr>watchers = [], fileIndex = [], changeQueue = [], watcherCount = 0,
      emfileRetryAttempts = [], failedDirectories = [], fallbackMode = False,
      fallbackReason = None, isWatchingDisabled = False, watchingStrategy = ''conservative'',
      emitted = [], os_watch_calls = [], closed_watchers = [], pending_retries = []\<rparr>"

definition emit :: "emitted_event \<Rightarrow> FileWatcherService \<Rightarrow> FileWatcherService" where
  "emit e s = s\<lparr>emitted := emitted s @ [e]\<rparr>"

text \<open>\<open>Set.add\<close>\<close>

definition set_add :: "'a \<Rightarrow> 'a list \<Rightarrow> 'a list" where
  "set_add x xs = (if x \<in> set xs then xs else xs @ [x])"

subsection \<open>\<open>watchDirectory\<close>\<close>

text \<open>
  The body of \<open>watchDirectory\<close> opens with
  \<^verbatim>\<open>this.emit('directory:skipped', { directory: dirPath, reason: 'emergency_disabled' }); return;\<close>
  Every statement after this \<open>return\<close> (the user setting, the fallback check, the size
  analysis with its branch for large directories, the watcher limit and the call of
  chokidar's \<open>watch\<close>) is unreachable, so the function is this one notification.
\<close>

definition watchDirectory ::
  "(string \<Rightarrow> fsnode) \<Rightarrow> string \<Rightarrow> watch_options \<Rightarrow> FileWatcherService \<Rightarrow> FileWatcherService" where
  "watchDirectory fs dirPath options s =
     emit (Emit_directory_skipped dirPath ''emergency_disabled'') s"

subsection \<open>\<open>getDirectoryStats\<close>\<close>

text \<open>
  The loop over the top-level entries, with its three counters
  \<open>(estimatedFileCount, actualFileCount, directoriesScanned)\<close>; \<open>n\<close> is
  \<open>topLevelFiles.length\<close>. A subdirectory with more than 100 files ends the loop
  (\<open>break\<close>) after adding 200 for every entry not yet scanned.
\<close>

fun stats_loop :: "nat \<Rightarrow> (string \<times> fsnode) list \<Rightarrow> nat \<times> nat \<times> nat \<Rightarrow> nat \<times> nat \<times> nat" where
  "stats_loop n [] acc = acc"
| "stats_loop n ((name, file) # rest) (estimated, actual, scanned) =
     (if isFile file then stats_loop n rest (estimated, actual + 1, scanned)
      else if isDirectory file then
        (let dirName = toLowerCase name in
         if scanned < 10 \<and> \<not> startsWith dirName ''.'' \<and> dirName \<noteq> ''node_modules'' then
           (case readdirSync file of
              Some subFiles \<Rightarrow>
                (let subFileCount = length (filter (\<lambda>(f, node). isFile node) subFiles) in
                 if subFileCount > 100
                 then (estimated + subFileCount + (n - (scanned + 1)) * 200, actual, scanned + 1)
                 else stats_loop n rest (estimated + subFileCount, actual, scanned + 1))
            | None \<Rightarrow> stats_loop n rest (estimated + 100, actual, scanned))
         else if dirName = ''node_modules'' then stats_loop n rest (estimated, actual, scanned)
         else if dirName = ''.git'' then stats_loop n rest (estimated + 1000, actual, scanned)
         else if startsWith dirName ''.'' then stats_loop n rest (estimated + 50, actual, scanned)
         else stats_loop n rest (estimated + 200, actual, scanned))
      else stats_loop n rest (estimated, actual, scanned))"

text \<open>\<open>getDirectoryStats(dirPath).estimatedFileCount\<close>; 2000 when the root cannot be read.\<close>

definition getDirectoryStats :: "(string \<Rightarrow> fsnode) \<Rightarrow> string \<Rightarrow> nat" where
  "getDirectoryStats fs dirPath =
     (case readdirSync (fs dirPath) of
        None \<Rightarrow> 2000
      | Some topLevelFiles \<Rightarrow>
          (let (estimated, actual, scanned) = stats_loop (length topLevelFiles) topLevelFiles (0, 0, 0)
           in actual + estimated))"

text \<open>The threshold of the branch \<open>if (stats.estimatedFileCount > 15000)\<close>.\<close>

definition large_tree_threshold :: nat where
  "large_tree_threshold = 15000"

subsection \<open>Unwatching and cleanup\<close>

definition unwatchDirectory :: "string \<Rightarrow> FileWatcherService \<Rightarrow> FileWatcherService" where
  "unwatchDirectory dirPath s =
     (case map_of (watchers s) dirPath of
        None \<Rightarrow> s
      | Some w \<Rightarrow>
          s\<lparr>closed_watchers := (case w of Some h \<Rightarrow> closed_watchers s @ [h] | None \<Rightarrow> closed_watchers s),
            watchers := AList.delete dirPath (watchers s),
            fileIndex := AList.delete dirPath (fileIndex s),
            changeQueue := AList.delete dirPath (changeQueue s),
            emfileRetryAttempts := AList.delete dirPath (emfileRetryAttempts s),
            watcherCount := watcherCount s - 1\<rparr>)"



subsection \<open>Fallback\<close>

definition enterFallbackMode :: "string \<Rightarrow> FileWatcherService \<Rightarrow> FileWatcherService" where
  "enterFallbackMode reason s =
     emit (Emit_fallback_activated reason) (s\<lparr>fallbackMode := True, fallbackReason := Some reason\<rparr>)"


text \<open>
  The decimal digits of a number, as a template literal prints it.
\<close>

definition digit_char :: "nat \<Rightarrow> char" where
  "digit_char d = char_of (48 + d)"

function number_toString :: "nat \<Rightarrow> string" where
  "number_toString n =
     (if n < 10 then [digit_char n] else number_toString (n div 10) @ [digit_char (n mod 10)])"
  by pat_completeness auto
termination
  by (relation "measure id") auto

declare number_toString.simps [simp del]

text \<open>
  \<open>markDirectoryFailed\<close>: the reason of the fallback is the text
  \<open>Multiple directory watch failures (\<close>, the size of the failed set and \<open>)\<close>.
\<close>

definition markDirectoryFailed :: "string \<Rightarrow> js_error \<Rightarrow> FileWatcherService \<Rightarrow> FileWatcherService" where
  "markDirectoryFailed dirPath error s =
     (let s1 = s\<lparr>failedDirectories := set_add dirPath (failedDirectories s)\<rparr>;
          s2 = (if length (failedDirectories s1) \<ge> 3
                then enterFallbackMode
                       (''Multiple directory watch failures (''
                          @ number_toString (length (failedDirectories s1)) @ '')'') s1
                else s1)
      in emit (Emit_directory_failed dirPath (err_message error)) s2)"


subsection \<open>\<open>handleEMFILEError\<close>\<close>



text \<open>
  The callback of the retry timer: it calls \<open>watchDirectory\<close> with the polling options
  and, as that call does not throw, deletes the retry counter of the directory.
  \<open>fire_retry\<close> runs the callback of the oldest pending timer.
\<close>

definition retry_options :: watch_options where
  "retry_options = \<lparr>opt_depth = Some 2, opt_usePolling = Some True, opt_interval = Some 1000,
                     opt_ignored = None\<rparr>"

definition retry_callback :: "(string \<Rightarrow> fsnode) \<Rightarrow> string \<Rightarrow> FileWatcherService \<Rightarrow> FileWatcherService" where
  "retry_callback fs dirPath s =
     (let s1 = watchDirectory fs dirPath retry_options s
      in s1\<lparr>emfileRetryAttempts := AList.delete dirPath (emfileRetryAttempts s1)\<rparr>)"

definition fire_retry :: "(string \<Rightarrow> fsnode) \<Rightarrow> FileWatcherService \<Rightarrow> FileWatcherService" where
  "fire_retry fs s =
     (case pending_retries s of
        [] \<Rightarrow> s
      | dirPath # rest \<Rightarrow> retry_callback fs dirPath (s\<lparr>pending_retries := rest\<rparr>))"


subsection \<open>\<open>manualRefresh\<close>\<close>

text \<open>\<open>shouldIgnoreFile(relativePath)\<close>\<close>

definition ignoredPatterns :: "string list" where
  "ignoredPatterns = [''node_modules'', ''.git'', ''dist'', ''build'', ''.DS_Store'', ''*.log'',
     ''coverage'', ''.vscode'', ''.idea'', ''tmp'', ''temp'', ''.cache'']"

definition shouldIgnoreFile :: "string \<Rightarrow> bool" where
  "shouldIgnoreFile relativePath =
     list_ex (\<lambda>pattern.
        if str_includes pattern ''*'' then regex_test pattern relativePath
        else str_includes relativePath pattern) ignoredPatterns"

text \<open>
  The recursive scan \<open>scanFiles(currentPath, depth)\<close>. It reads \<open>currentIndex\<close> and
  fills \<open>newFiles\<close> and \<open>changes\<close>, the pair the functions pass along; \<open>None\<close> is an
  exception of \<open>readdirSync\<close>, which ends the whole refresh.
\<close>

fun scanFiles ::
  "string list \<Rightarrow> nat \<Rightarrow> string \<Rightarrow> string \<Rightarrow> fsnode
     \<Rightarrow> string list \<times> change_event list \<Rightarrow> (string list \<times> change_event list) option"
and scan_entries ::
  "string list \<Rightarrow> nat \<Rightarrow> string \<Rightarrow> string \<Rightarrow> (string \<times> fsnode) list
     \<Rightarrow> string list \<times> change_event list \<Rightarrow> (string list \<times> change_event list) option"
where
  "scanFiles currentIndex depth currentPath rel (FsDir entries) acc =
     (if depth > 3 then Some acc
      else scan_entries currentIndex depth currentPath rel entries acc)"
| "scanFiles currentIndex depth currentPath rel FsFile acc =
     (if depth > 3 then Some acc else None)"
| "scanFiles currentIndex depth currentPath rel FsOther acc =
     (if depth > 3 then Some acc else None)"
| "scanFiles currentIndex depth currentPath rel FsUnreadable acc =
     (if depth > 3 then Some acc else None)"
| "scan_entries currentIndex depth currentPath rel [] acc = Some acc"
| "scan_entries currentIndex depth currentPath rel ((name, node) # rest) (newFiles, changes) =
     (let fullPath = path_join currentPath name;
          relativePath = relative_join rel name
      in if shouldIgnoreFile relativePath
         then scan_entries currentIndex depth currentPath rel rest (newFiles, changes)
         else if isFile node
         then scan_entries currentIndex depth currentPath rel rest
                (set_add fullPath newFiles,
                 if fullPath \<notin> set currentIndex
                 then changes @ [\<lparr>ev_type = Add, ev_path = fullPath, ev_relativePath = relativePath\<rparr>]
                 else changes)
         else if isDirectory node \<and> depth < 3
         then (case scanFiles currentIndex (depth + 1) fullPath relativePath node (newFiles, changes) of
                 None \<Rightarrow> None
               | Some acc' \<Rightarrow> scan_entries currentIndex depth currentPath rel rest acc')
         else scan_entries currentIndex depth currentPath rel rest (newFiles, changes))"

text \<open>
  The loop \<open>for (const filePath of currentIndex)\<close> that finds deleted files. The
  relative path of a recorded file is \<open>path.relative(dirPath, filePath)\<close>: the path
  without the root and its separator.
\<close>

definition path_relative :: "string \<Rightarrow> string \<Rightarrow> string" where
  "path_relative dirPath filePath =
     (if startsWith filePath (dirPath @ ''/'') then drop (length dirPath + 1) filePath else filePath)"

definition deleted_files :: "string \<Rightarrow> string list \<Rightarrow> string list \<Rightarrow> change_event list" where
  "deleted_files dirPath currentIndex newFiles =
     map (\<lambda>filePath. \<lparr>ev_type = Unlink, ev_path = filePath,
                       ev_relativePath = path_relative dirPath filePath\<rparr>)
       (filter (\<lambda>filePath. filePath \<notin> set newFiles) currentIndex)"

datatype refresh_error = Readdir_failed

text \<open>
  \<open>manualRefresh(dirPath)\<close> returns \<open>{changes, totalFiles}\<close>, or rethrows the exception
  of the scan, in which case neither the file index nor the listeners have been touched.
\<close>

definition manualRefresh ::
  "(string \<Rightarrow> fsnode) \<Rightarrow> string \<Rightarrow> FileWatcherService
     \<Rightarrow> (refresh_error + change_event list \<times> nat) \<times> FileWatcherService" where
  "manualRefresh fs dirPath s =
     (let currentIndex = (case map_of (fileIndex s) dirPath of Some files \<Rightarrow> files | None \<Rightarrow> [])
      in case scanFiles currentIndex 0 dirPath [] (fs dirPath) ([], []) of
           None \<Rightarrow> (Inl Readdir_failed, s)
         | Some (newFiles, added) \<Rightarrow>
             (let changes = added @ deleted_files dirPath currentIndex newFiles;
                  s1 = s\<lparr>fileIndex := AList.update dirPath newFiles (fileIndex s)\<rparr>;
                  s2 = fold (\<lambda>change. emit (Emit_file_change dirPath change)) changes s1
              in (Inr (changes, length newFiles), s2)))"

text \<open>The \<open>file:change\<close> notifications among a list of notifications, by kind.\<close>

fun is_add_event :: "emitted_event \<Rightarrow> bool" where
  "is_add_event (Emit_file_change d e) = (ev_type e = Add)"
| "is_add_event _ = False"

fun is_unlink_event :: "emitted_event \<Rightarrow> bool" where
  "is_unlink_event (Emit_file_change d e) = (ev_type e = Unlink)"
| "is_unlink_event _ = False"

subsection \<open>Requests to the service\<close>




text \<open>A service that watches nothing, has marked no root failed and has no retry pending.\<close>

definition idle :: "FileWatcherService \<Rightarrow> bool" where
  "idle s \<longleftrightarrow> watchers s = [] \<and> os_watch_calls s = [] \<and> failedDirectories s = []
      \<and> pending_retries s = [] \<and> emfileRetryAttempts s = []"

text \<open>
  A small workspace: two source files, a dependency directory and a log file, which the
  refresh ignores.
\<close>

definition example_workspace :: "string \<Rightarrow> fsnode" where
  "example_workspace root =
     FsDir [(''a.ts'', FsFile),
            (''src'', FsDir [(''b.ts'', FsFile)]),
            (''node_modules'', FsDir [(''x.js'', FsFile)]),
            (''debug.log'', FsFile)]"

text \<open>
  A workspace with 80 top-level directories, listed in the sorted order in which
  \<open>readdirSync\<close> returns them: \<open>app\<close>, which holds 101 files, comes first, then \<open>d\<close>,
  \<open>dd\<close>, \<open>ddd\<close> and so on. The estimate is 101 for \<open>app\<close> and 200 for each of the other 79.
\<close>

definition large_workspace :: "string \<Rightarrow> fsnode" where
  "large_workspace root =
     FsDir ((''app'', FsDir (map (\<lambda>i. (replicate (Suc i) CHR ''f'', FsFile)) [0..<101]))
            # map (\<lambda>i. (replicate (Suc i) CHR ''d'', FsDir [])) [0..<79])"



section \<open>Workspace Index: \<open>LightweightContext\<close> (electron/lightweight-context)\<close>

subsection \<open>Data\<close>

record FileInfo =
  fi_path :: string
  fi_name :: string
  fi_size :: nat
  fi_language :: string
  fi_lastModified :: int
  fi_relevanceScore :: "int option"

record ProjectInfo =
  pi_type :: string
  pi_framework :: "string option"
  pi_languages :: "string list"
  pi_entryPoints :: "string list"
  pi_configFiles :: "string list"
  pi_totalFiles :: nat
  pi_languageDistribution :: "(string \<times> nat) list"

text \<open>
  The debounce timer of file events: none, one waiting with the event it will handle, or
  one that has fired (the field keeps the handle of a fired timer).
\<close>

datatype debounce_timer = No_timer | Pending_timer change_type string | Fired_timer

text \<open>
  The fields of the class. \<open>fileWatcherCleanup\<close> is set exactly while the handler of this
  instance is registered for \<open>file:change\<close> on the watch service. \<open>notified\<close> records
  the calls of the listeners' callbacks.
\<close>

record LightweightContext =
  workspacePath :: string
  fileCache :: "(string, FileInfo) LRUCache"
  projectInfo :: "ProjectInfo option"
  lastScanTime :: int
  isDestroyed :: bool
  watcherCallbacks :: "nat list"
  fileWatcherCleanup :: bool
  callbackIdCounter :: nat
  scanDebounceTimer :: debounce_timer
  memoryMonitorInterval :: bool
  MAX_FILES :: int
  ignorePatterns :: "string list"
  notified :: "(string \<times> string) list"

definition MAX_FILE_SIZE :: nat where "MAX_FILE_SIZE = 512 * 1024"
definition MAX_CACHE_AGE :: int where "MAX_CACHE_AGE = 30 * 60 * 1000"

definition default_ignorePatterns :: "string list" where
  "default_ignorePatterns =
     [''node_modules'', ''vendor'', ''packages'', ''.pnpm-store'',
      ''.git'', ''.svn'', ''.hg'',
      ''.claude'', ''.claude-checkpoints'', ''.clode'', ''.worktrees'', ''.vscode'', ''.idea'',
      ''*.swp'', ''*.swo'',
      ''dist'', ''build'', ''out'', ''.output'', ''.next'', ''public/build'', ''target'', ''bin'', ''obj'',
      ''logs'', ''*.log'', ''tmp'', ''temp'', ''.tmp'', ''.temp'',
      ''.cache'', ''.parcel-cache'', ''.nuxt'', ''.turbo'', ''.webpack'',
      ''coverage'', ''.nyc_output'', ''.coverage'', ''htmlcov'',
      ''__pycache__'', ''*.pyc'', ''*.pyo'', ''*.class'', ''*.o'', ''*.so'', ''*.dll'', ''*.exe'',
      ''.DS_Store'', ''Thumbs.db'', ''desktop.ini'',
      ''*.mp4'', ''*.avi'', ''*.mov'', ''*.wmv'', ''*.mp3'', ''*.wav'', ''*.flac'',
      ''*.zip'', ''*.rar'', ''*.7z'', ''*.tar.gz'', ''*.dmp'', ''*.dump'']"

text \<open>
  The field initialisers and the constructor, which builds the cache from the initial
  \<open>MAX_FILES\<close> (300) and \<open>MAX_CACHE_AGE\<close>.
\<close>

definition LightweightContext_new :: LightweightContext where
  "LightweightContext_new =
     \<lparr>workspacePath = [], fileCache = LRUCache_new 300 MAX_CACHE_AGE, projectInfo = None,
      lastScanTime = 0, isDestroyed = False, watcherCallbacks = [], fileWatcherCleanup = False,
      callbackIdCounter = 0, scanDebounceTimer = No_timer, memoryMonitorInterval = False,
      MAX_FILES = 300, ignorePatterns = default_ignorePatterns, notified = []\<rparr>"

subsection \<open>What the instance reads and calls outside itself\<close>

text \<open>
  The workspace as \<open>initialize\<close> finds it: whether the root exists; its top-level entries
  (\<open>None\<close> when \<open>readdir\<close> fails), each with the result of \<open>stat\<close> (\<open>None\<close> when it
  throws), that is whether it is a directory and whether it holds one of the project
  files (\<open>package.json\<close>, \<open>.git\<close> and so on); the text of \<open>.gitignore\<close> if there is one
  that can be read; the project information persisted by an earlier session; and the
  files the asynchronous scan accepts (not ignored, not binary, not above the size
  ceiling), in the order in which they reach the step that inserts them into the cache,
  each with the clock reading of that moment.
\<close>

record workspace_env =
  env_exists :: bool
  env_entries :: "(string \<times> (bool \<times> bool) option) list option"
  env_gitignore :: "string option"
  env_persisted :: "ProjectInfo option"
  env_scan :: "(int \<times> FileInfo) list"
  env_fs :: "string \<Rightarrow> fsnode"

text \<open>One line of the text \<open>buildContext\<close> assembles, before it is formatted and joined.\<close>

datatype context_line =
    Line_project string
  | Line_framework string
  | Line_languages "string list"
  | Line_blank
  | Line_working_files
  | Line_working_file string string
  | Line_relevant_files
  | Line_relevant_file string string "int option"
  | Line_file_tree
  | Line_tree "FileInfo list"

text \<open>
  The module \<open>workspace-persistence\<close> is not among the sources. Its calls are recorded
  as they are made and are taken to return without an exception.
\<close>

datatype persistence_call =
    UpdateProjectInfo string ProjectInfo
  | AddContextHistory string string "context_line list"

record externals =
  watcher_service :: FileWatcherService
  persistence_calls :: "persistence_call list"

datatype context_error = Destroyed_instance | Path_does_not_exist

subsection \<open>Ignore patterns and project analysis\<close>

definition shouldIgnore :: "LightweightContext \<Rightarrow> string \<Rightarrow> bool" where
  "shouldIgnore ctx path =
     list_ex (\<lambda>pattern.
        if str_includes pattern ''*'' then regex_test pattern path
        else str_includes path pattern) (ignorePatterns ctx)"

definition endsWith :: "string \<Rightarrow> string \<Rightarrow> bool" where
  "endsWith s suffix = startsWith (rev s) (rev suffix)"

definition isEntryPoint :: "string \<Rightarrow> bool" where
  "isEntryPoint filename \<longleftrightarrow> filename \<in> set
     [''main.js'', ''main.ts'', ''index.js'', ''index.ts'', ''app.js'', ''app.ts'', ''server.js'',
      ''server.ts'', ''main.py'', ''__main__.py'', ''app.py'', ''Main.java'', ''Application.java'',
      ''main.cpp'', ''main.c'', ''Program.cs'', ''Main.cs'']"

definition isConfigFile :: "string \<Rightarrow> bool" where
  "isConfigFile filename \<longleftrightarrow> filename \<in> set
     [''package.json'', ''tsconfig.json'', ''nuxt.config.ts'', ''vite.config.ts'',
      ''webpack.config.js'', ''rollup.config.js'', ''babel.config.js'', ''pom.xml'',
      ''build.gradle'', ''Cargo.toml'', ''requirements.txt'', ''Dockerfile'',
      ''docker-compose.yml'', ''.gitignore'', ''README.md'']"

definition detectProjectType :: "FileInfo list \<Rightarrow> string" where
  "detectProjectType files =
     (let fileNames = map fi_name files in
      if ''package.json'' \<in> set fileNames then ''nodejs''
      else if ''pom.xml'' \<in> set fileNames then ''java''
      else if ''Cargo.toml'' \<in> set fileNames then ''rust''
      else if ''requirements.txt'' \<in> set fileNames then ''python''
      else if ''go.mod'' \<in> set fileNames then ''go''
      else if ''Gemfile'' \<in> set fileNames then ''ruby''
      else if ''composer.json'' \<in> set fileNames then ''php''
      else if list_ex (\<lambda>name. endsWith name ''.csproj'') fileNames then ''csharp''
      else if list_ex (\<lambda>name. endsWith name ''.vcxproj'') fileNames then ''cpp''
      else if ''app.json'' \<in> set fileNames then ''al''
      else ''unknown'')"

definition detectFramework :: "FileInfo list \<Rightarrow> string option" where
  "detectFramework files =
     (let fileNames = map fi_name files in
      if ''nuxt.config.ts'' \<in> set fileNames then Some ''nuxt''
      else if ''next.config.js'' \<in> set fileNames then Some ''nextjs''
      else if ''vue.config.js'' \<in> set fileNames then Some ''vue''
      else if ''angular.json'' \<in> set fileNames then Some ''angular''
      else if ''svelte.config.js'' \<in> set fileNames then Some ''svelte''
      else if ''gatsby-config.js'' \<in> set fileNames then Some ''gatsby''
      else if ''vite.config.ts'' \<in> set fileNames then Some ''vite''
      else None)"

definition count_language :: "string \<Rightarrow> (string \<times> nat) list \<Rightarrow> (string \<times> nat) list" where
  "count_language language dist =
     AList.update language (case map_of dist language of Some n \<Rightarrow> n + 1 | None \<Rightarrow> 1) dist"

definition analyzeProject :: "FileInfo list \<Rightarrow> ProjectInfo" where
  "analyzeProject files =
     \<lparr>pi_type = detectProjectType files,
      pi_framework = detectFramework files,
      pi_languages = fold (\<lambda>file. set_add (fi_language file)) files [],
      pi_entryPoints = map fi_path (filter (\<lambda>file. isEntryPoint (fi_name file)) files),
      pi_configFiles = map fi_path (filter (\<lambda>file. isConfigFile (fi_name file)) files),
      pi_totalFiles = length files,
      pi_languageDistribution = fold (\<lambda>file. count_language (fi_language file)) files []\<rparr>"

subsection \<open>\<open>validateWorkspacePath\<close>\<close>

text \<open>
  The loop that counts the project-like subdirectories; \<open>None\<close> when a \<open>stat\<close> throws,
  which the \<open>catch\<close> of the function turns into a warning.
\<close>

fun count_project_dirs ::
  "LightweightContext \<Rightarrow> (string \<times> (bool \<times> bool) option) list \<Rightarrow> nat \<Rightarrow> nat option" where
  "count_project_dirs ctx [] projectLikeDirs = Some projectLikeDirs"
| "count_project_dirs ctx ((entry, None) # rest) projectLikeDirs = None"
| "count_project_dirs ctx ((entry, Some (isDir, hasProjectFile)) # rest) projectLikeDirs =
     (if isDir \<and> \<not> shouldIgnore ctx entry \<and> hasProjectFile
      then count_project_dirs ctx rest (projectLikeDirs + 1)
      else count_project_dirs ctx rest projectLikeDirs)"

definition validateWorkspacePath :: "workspace_env \<Rightarrow> LightweightContext \<Rightarrow> LightweightContext" where
  "validateWorkspacePath env ctx =
     (case env_entries env of
        None \<Rightarrow> ctx
      | Some entries \<Rightarrow>
          (case count_project_dirs ctx entries 0 of
             None \<Rightarrow> ctx
           | Some projectLikeDirs \<Rightarrow>
               if projectLikeDirs \<ge> 3 then ctx\<lparr>MAX_FILES := min (MAX_FILES ctx) 200\<rparr>
               else if projectLikeDirs = 1 then ctx\<lparr>MAX_FILES := min (MAX_FILES ctx) 500\<rparr>
               else ctx))"

subsection \<open>\<open>loadGitignorePatterns\<close>\<close>

fun split_lines :: "string \<Rightarrow> string \<Rightarrow> string list" where
  "split_lines line [] = [line]"
| "split_lines line (c # cs) =
     (if c = CHR 0x0A then line # split_lines [] cs else split_lines (line @ [c]) cs)"

definition whitespace :: "char \<Rightarrow> bool" where
  "whitespace c \<longleftrightarrow> c \<in> set [CHR '' '', CHR 0x09, CHR 0x0A, CHR 0x0B, CHR 0x0C, CHR 0x0D]"

definition trim :: "string \<Rightarrow> string" where
  "trim s = rev (dropWhile whitespace (rev (dropWhile whitespace s)))"

definition loadGitignorePatterns :: "workspace_env \<Rightarrow> LightweightContext \<Rightarrow> LightweightContext" where
  "loadGitignorePatterns env ctx =
     (case env_gitignore env of
        None \<Rightarrow> ctx
      | Some gitignoreContent \<Rightarrow>
          fold (\<lambda>line ctx'.
                  let trimmedLine = trim line in
                  if trimmedLine = [] \<or> startsWith trimmedLine ''#'' then ctx'
                  else if trimmedLine \<notin> set (ignorePatterns ctx')
                  then ctx'\<lparr>ignorePatterns := ignorePatterns ctx' @ [trimmedLine]\<rparr>
                  else ctx')
            (split_lines [] gitignoreContent) ctx)"

subsection \<open>Scanning\<close>

text \<open>
  The step of \<open>scanDirectory\<close> that a file reaches once it is accepted: the check of the
  file count against \<open>MAX_FILES\<close>, then \<open>this.fileCache.set(fullPath, fileInfo)\<close>. The
  function returns the files it inserted.
\<close>

fun scanDirectory :: "(int \<times> FileInfo) list \<Rightarrow> LightweightContext \<Rightarrow> FileInfo list \<times> LightweightContext" where
  "scanDirectory [] ctx = ([], ctx)"
| "scanDirectory ((now, fileInfo) # rest) ctx =
     (if int (LRUCache_size (fileCache ctx)) \<ge> MAX_FILES ctx then scanDirectory rest ctx
      else (let ctx' = ctx\<lparr>fileCache := LRUCache_set now (fi_path fileInfo) fileInfo (fileCache ctx)\<rparr>;
                (files, ctx'') = scanDirectory rest ctx'
            in (fileInfo # files, ctx'')))"

definition scanWorkspace :: "int \<Rightarrow> (int \<times> FileInfo) list \<Rightarrow> LightweightContext \<Rightarrow> LightweightContext" where
  "scanWorkspace now arrivals ctx =
     (if isDestroyed ctx then ctx
      else (let ctx1 = ctx\<lparr>fileCache := LRUCache_clear (fileCache ctx)\<rparr>;
                (files, ctx2) = scanDirectory arrivals ctx1
            in ctx2\<lparr>projectInfo := Some (analyzeProject files), lastScanTime := now\<rparr>))"

subsection \<open>Watching and monitoring\<close>

definition context_watch_options :: "LightweightContext \<Rightarrow> watch_options" where
  "context_watch_options ctx =
     \<lparr>opt_depth = Some 0, opt_usePolling = Some True, opt_interval = Some 5000,
      opt_ignored = Some (map (\<lambda>pattern. ''**/'' @ pattern @ ''/**'') (ignorePatterns ctx))\<rparr>"

definition startWatching ::
  "(string \<Rightarrow> fsnode) \<Rightarrow> LightweightContext \<Rightarrow> FileWatcherService \<Rightarrow> LightweightContext \<times> FileWatcherService" where
  "startWatching fs ctx service =
     (if workspacePath ctx = [] \<or> isDestroyed ctx then (ctx, service)
      else (ctx\<lparr>fileWatcherCleanup := True\<rparr>,
            watchDirectory fs (workspacePath ctx) (context_watch_options ctx) service))"

definition stopWatching :: "LightweightContext \<Rightarrow> FileWatcherService \<Rightarrow> LightweightContext \<times> FileWatcherService" where
  "stopWatching ctx service =
     (ctx\<lparr>fileWatcherCleanup := False,
          scanDebounceTimer := No_timer\<rparr>,
      if workspacePath ctx \<noteq> [] then unwatchDirectory (workspacePath ctx) service else service)"

definition stopMemoryMonitor :: "LightweightContext \<Rightarrow> LightweightContext" where
  "stopMemoryMonitor ctx = ctx\<lparr>memoryMonitorInterval := False\<rparr>"

definition startMemoryMonitor :: "LightweightContext \<Rightarrow> LightweightContext" where
  "startMemoryMonitor ctx =
     (if isDestroyed ctx then ctx else (stopMemoryMonitor ctx)\<lparr>memoryMonitorInterval := True\<rparr>)"

subsection \<open>\<open>initialize\<close>\<close>

text \<open>
  The two \<open>throw\<close> statements of \<open>initialize\<close> are the two errors; everything it awaits
  after them catches its own exceptions.
\<close>

definition LightweightContext_initialize ::
  "workspace_env \<Rightarrow> int \<Rightarrow> string \<Rightarrow> LightweightContext \<Rightarrow> externals
     \<Rightarrow> (context_error + unit) \<times> LightweightContext \<times> externals" where
  "LightweightContext_initialize env now path ctx ext =
     (if isDestroyed ctx then (Inl Destroyed_instance, ctx, ext)
      else
        (let (ctx1, service1) = stopWatching ctx (watcher_service ext) in
         if path = [] \<or> \<not> env_exists env
         then (Inl Path_does_not_exist, ctx1, ext\<lparr>watcher_service := service1\<rparr>)
         else
           (let ctx2 = validateWorkspacePath env ctx1;
                ctx3 = ctx2\<lparr>workspacePath := path\<rparr>;
                ctx4 = loadGitignorePatterns env ctx3;
                ctx5 = (case env_persisted env of
                          Some persisted \<Rightarrow> ctx4\<lparr>projectInfo := Some persisted\<rparr>
                        | None \<Rightarrow> ctx4);
                ctx6 = scanWorkspace now (env_scan env) ctx5;
                calls = (case projectInfo ctx6 of
                           Some info \<Rightarrow> persistence_calls ext @ [UpdateProjectInfo path info]
                         | None \<Rightarrow> persistence_calls ext);
                (ctx7, service2) = startWatching (env_fs env) ctx6 service1;
                ctx8 = startMemoryMonitor ctx7
            in (Inr (), ctx8, \<lparr>watcher_service = service2, persistence_calls = calls\<rparr>))))"

subsection \<open>Queries\<close>

text \<open>
  The score of \<open>searchFiles\<close>. \<open>daysSinceModified < 1\<close> is
  \<open>Date.now() - lastModified < 86400000\<close>, and \<open>< 7\<close> seven times that.
\<close>

definition file_score :: "int \<Rightarrow> string \<Rightarrow> FileInfo \<Rightarrow> int" where
  "file_score now queryLower file =
     (if str_includes (toLowerCase (fi_name file)) queryLower then 10 else 0)
   + (if str_includes (toLowerCase (fi_path file)) queryLower then 5 else 0)
   + (if str_includes (toLowerCase (fi_language file)) queryLower then 3 else 0)
   + (if now - fi_lastModified file < 86400000 then 5
      else if now - fi_lastModified file < 7 * 86400000 then 2 else 0)"

text \<open>
  \<open>searchFiles\<close> writes the score into the file objects that the cache holds and returns
  the files with a positive score, highest first (the sort is stable), cut to \<open>limit\<close>.
\<close>

definition scored :: "int \<Rightarrow> string \<Rightarrow> FileInfo \<Rightarrow> FileInfo" where
  "scored now queryLower file =
     (if file_score now queryLower file > 0
      then file\<lparr>fi_relevanceScore := Some (file_score now queryLower file)\<rparr> else file)"

definition relevance :: "FileInfo \<Rightarrow> int" where
  "relevance file = (case fi_relevanceScore file of Some score \<Rightarrow> score | None \<Rightarrow> 0)"

definition searchFiles ::
  "int \<Rightarrow> string \<Rightarrow> nat \<Rightarrow> LightweightContext \<Rightarrow> FileInfo list \<times> LightweightContext" where
  "searchFiles now query limit ctx =
     (if isDestroyed ctx then ([], ctx)
      else
        (let queryLower = toLowerCase query;
             cache' = map (\<lambda>(key, entry).
                        (key, entry\<lparr>entry_value := scored now queryLower (entry_value entry)\<rparr>))
                      (cache (fileCache ctx));
             results = filter (\<lambda>file. file_score now queryLower file > 0)
                         (map (\<lambda>(key, entry). entry_value entry) cache')
         in (take limit (sort_key (\<lambda>file. - relevance file) results),
             ctx\<lparr>fileCache := (fileCache ctx)\<lparr>cache := cache'\<rparr>\<rparr>)))"

definition getFilesByLanguage :: "string \<Rightarrow> LightweightContext \<Rightarrow> FileInfo list" where
  "getFilesByLanguage language ctx =
     (if isDestroyed ctx then []
      else filter (\<lambda>file. fi_language file = language) (LRUCache_values (fileCache ctx)))"

definition getRecentFiles :: "int \<Rightarrow> int \<Rightarrow> LightweightContext \<Rightarrow> FileInfo list" where
  "getRecentFiles now hours ctx =
     (if isDestroyed ctx then []
      else (let cutoff = now - hours * 60 * 60 * 1000
            in sort_key (\<lambda>file. - fi_lastModified file)
                 (filter (\<lambda>file. fi_lastModified file > cutoff) (LRUCache_values (fileCache ctx)))))"

text \<open>\<open>getFileContent\<close>: the text of the file, or \<open>null\<close> when \<open>readFile\<close> throws.\<close>

definition getFileContent :: "(string \<Rightarrow> string option) \<Rightarrow> string \<Rightarrow> LightweightContext \<Rightarrow> string option" where
  "getFileContent readFile filePath ctx = readFile filePath"

definition getStatistics :: "LightweightContext \<Rightarrow> ProjectInfo option" where
  "getStatistics ctx = projectInfo ctx"

text \<open>
  The loop of \<open>buildContext\<close> over the working files: each is looked up with
  \<open>this.fileCache.get\<close>, which refreshes or removes the entry.
\<close>

fun working_file_lines ::
  "int \<Rightarrow> string \<Rightarrow> string list \<Rightarrow> (string, FileInfo) LRUCache
     \<Rightarrow> context_line list \<times> (string, FileInfo) LRUCache" where
  "working_file_lines now root [] c = ([], c)"
| "working_file_lines now root (filePath # rest) c =
     (let (found, c') = LRUCache_get now filePath c;
          (lines, c'') = working_file_lines now root rest c'
      in ((case found of
             Some file \<Rightarrow> [Line_working_file (path_relative root filePath) (fi_language file)]
           | None \<Rightarrow> []) @ lines, c''))"

text \<open>
  \<open>buildContext(query, workingFiles, maxTokens)\<close>. The file tree is the list of cached
  files, which \<open>buildFileTree\<close> sorts by \<open>localeCompare\<close> and indents. The text is
  appended to the history of the workspace when the path and the query are not empty.
\<close>

definition buildContext ::
  "int \<Rightarrow> string \<Rightarrow> string list \<Rightarrow> nat \<Rightarrow> LightweightContext \<Rightarrow> externals
     \<Rightarrow> context_line list \<times> LightweightContext \<times> externals" where
  "buildContext now query workingFiles maxTokens ctx ext =
     (let overview = (case projectInfo ctx of
                        None \<Rightarrow> []
                      | Some info \<Rightarrow>
                          [Line_project (pi_type info)]
                          @ (case pi_framework info of Some f \<Rightarrow> [Line_framework f] | None \<Rightarrow> [])
                          @ [Line_languages (pi_languages info), Line_blank]);
          (relevantFiles, ctx1) = searchFiles now query 10 ctx;
          (working, cache2) = (if workingFiles \<noteq> []
                               then working_file_lines now (workspacePath ctx1) workingFiles (fileCache ctx1)
                               else ([], fileCache ctx1));
          ctx2 = ctx1\<lparr>fileCache := cache2\<rparr>;
          working_part = (if workingFiles \<noteq> [] then [Line_working_files] @ working @ [Line_blank] else []);
          relevant_part = (if relevantFiles \<noteq> []
                           then [Line_relevant_files]
                                @ map (\<lambda>file. Line_relevant_file (path_relative (workspacePath ctx2) (fi_path file))
                                                  (fi_language file) (fi_relevanceScore file))
                                    (take 5 relevantFiles)
                                @ [Line_blank]
                           else []);
          tree_part = (case projectInfo ctx2 of
                         Some info \<Rightarrow>
                           if pi_totalFiles info < 50
                           then [Line_file_tree, Line_tree (LRUCache_values (fileCache ctx2))] else []
                       | None \<Rightarrow> []);
          contextString = overview @ working_part @ relevant_part @ tree_part;
          ext' = (if workspacePath ctx2 \<noteq> [] \<and> query \<noteq> []
                  then ext\<lparr>persistence_calls := persistence_calls ext
                             @ [AddContextHistory (workspacePath ctx2) query contextString]\<rparr>
                  else ext)
      in (contextString, ctx2, ext'))"

subsection \<open>Cache maintenance and cleanup\<close>

definition LightweightContext_forceCleanup :: "int \<Rightarrow> LightweightContext \<Rightarrow> nat \<times> LightweightContext" where
  "LightweightContext_forceCleanup now ctx =
     (if isDestroyed ctx then (0, ctx)
      else (let (removed, c) = LRUCache_forceCleanup now (fileCache ctx)
            in (removed, ctx\<lparr>fileCache := c\<rparr>)))"

text \<open>
  The loop of \<open>emergencyCleanup\<close> that puts back at most 50 entries: the first 30, and
  configuration and entry-point files after them.
\<close>

fun readd_entries ::
  "int \<Rightarrow> (string \<times> FileInfo) list \<Rightarrow> nat \<Rightarrow> (string, FileInfo) LRUCache \<Rightarrow> (string, FileInfo) LRUCache" where
  "readd_entries now [] kept c = c"
| "readd_entries now ((path, file) # rest) kept c =
     (if kept < 50
      then (if isConfigFile (fi_name file) \<or> isEntryPoint (fi_name file) \<or> kept < 30
            then readd_entries now rest (kept + 1) (LRUCache_set now path file c)
            else readd_entries now rest kept c)
      else c)"

definition emergencyCleanup :: "int \<Rightarrow> LightweightContext \<Rightarrow> LightweightContext" where
  "emergencyCleanup now ctx =
     (if isDestroyed ctx then ctx
      else (let c1 = snd (LRUCache_forceCleanup now (fileCache ctx));
                c2 = (if LRUCache_size c1 > 50
                      then readd_entries now (LRUCache_entries c1) 0 (LRUCache_clear c1)
                      else c1)
            in ctx\<lparr>fileCache := c2, scanDebounceTimer := No_timer\<rparr>))"

definition LightweightContext_cleanup ::
  "LightweightContext \<Rightarrow> FileWatcherService \<Rightarrow> LightweightContext \<times> FileWatcherService" where
  "LightweightContext_cleanup ctx service =
     (if isDestroyed ctx then (ctx, service)
      else (let (ctx1, service1) = stopWatching (ctx\<lparr>isDestroyed := True\<rparr>) service;
                ctx2 = stopMemoryMonitor ctx1
            in (ctx2\<lparr>fileCache := LRUCache_clear (fileCache ctx2), projectInfo := None,
                     watcherCallbacks := [], scanDebounceTimer := No_timer\<rparr>,
                service1)))"

subsection \<open>File events\<close>

text \<open>
  \<open>path.basename\<close> and \<open>path.extname\<close>: the part after the last separator, and its part
  from the last dot on when that dot is not its first character.
\<close>

definition basename :: "string \<Rightarrow> string" where
  "basename p = rev (takeWhile (\<lambda>c. c \<noteq> CHR ''/'') (rev p))"

definition extname :: "string \<Rightarrow> string" where
  "extname p =
     (let b = basename p; ext = rev (takeWhile (\<lambda>c. c \<noteq> CHR ''.'') (rev b))
      in if CHR ''.'' \<notin> set b \<or> length ext + 1 = length b then [] else CHR ''.'' # ext)"

definition languageMap :: "(string \<times> string) list" where
  "languageMap =
     [(''.js'', ''javascript''), (''.ts'', ''typescript''), (''.jsx'', ''javascript''),
      (''.tsx'', ''typescript''), (''.vue'', ''vue''), (''.py'', ''python''), (''.java'', ''java''),
      (''.cpp'', ''cpp''), (''.c'', ''c''), (''.cs'', ''csharp''), (''.php'', ''php''),
      (''.rb'', ''ruby''), (''.go'', ''go''), (''.rs'', ''rust''), (''.swift'', ''swift''),
      (''.kt'', ''kotlin''), (''.scala'', ''scala''), (''.ex'', ''elixir''), (''.al'', ''al''),
      (''.html'', ''html''), (''.css'', ''css''), (''.json'', ''json''), (''.md'', ''markdown''),
      (''.yaml'', ''yaml''), (''.yml'', ''yaml''), (''.xml'', ''xml''), (''.sql'', ''sql'')]"

definition isBinaryFile :: "string \<Rightarrow> bool" where
  "isBinaryFile filename \<longleftrightarrow> toLowerCase (extname filename) \<in> set
     [''.exe'', ''.dll'', ''.so'', ''.dylib'', ''.bin'', ''.dat'', ''.jpg'', ''.jpeg'', ''.png'',
      ''.gif'', ''.bmp'', ''.ico'', ''.mp3'', ''.mp4'', ''.avi'', ''.mov'', ''.wmv'', ''.zip'',
      ''.rar'', ''.7z'', ''.tar'', ''.gz'', ''.pdf'', ''.doc'', ''.docx'', ''.xls'', ''.xlsx'']"

text \<open>
  \<open>addFileToCache(filePath)\<close>; \<open>stats\<close> is the result of \<open>stat\<close> (\<open>None\<close> when it
  throws): whether the path is a regular file, its size and its modification time. The
  file goes into the cache with \<open>this.fileCache.set\<close>: there is no check against
  \<open>MAX_FILES\<close> here.
\<close>

definition addFileToCache ::
  "int \<Rightarrow> (bool \<times> nat \<times> int) option \<Rightarrow> string \<Rightarrow> LightweightContext \<Rightarrow> LightweightContext" where
  "addFileToCache now stats filePath ctx =
     (case stats of
        None \<Rightarrow> ctx
      | Some (is_file, fsize, mtime) \<Rightarrow>
          if is_file \<and> fsize \<le> 1024 * 1024 \<and> \<not> isBinaryFile filePath
          then ctx\<lparr>fileCache := LRUCache_set now filePath
                    \<lparr>fi_path = filePath, fi_name = basename filePath, fi_size = fsize,
                     fi_language = (case map_of languageMap (toLowerCase (extname filePath)) of
                                      Some l \<Rightarrow> l | None \<Rightarrow> ''unknown''),
                     fi_lastModified = mtime, fi_relevanceScore = None\<rparr>
                    (fileCache ctx)\<rparr>
          else ctx)"

definition removeFileFromCache :: "string \<Rightarrow> LightweightContext \<Rightarrow> LightweightContext" where
  "removeFileFromCache filePath ctx = ctx\<lparr>fileCache := snd (LRUCache_delete filePath (fileCache ctx))\<rparr>"

definition updateFileInCache ::
  "int \<Rightarrow> (bool \<times> nat \<times> int) option \<Rightarrow> string \<Rightarrow> LightweightContext \<Rightarrow> LightweightContext" where
  "updateFileInCache now stats filePath ctx =
     (let (existingFile, c) = LRUCache_get now filePath (fileCache ctx) in
      case (existingFile, stats) of
        (Some file, Some (is_file, fsize, mtime)) \<Rightarrow>
          ctx\<lparr>fileCache := c\<lparr>cache := map (\<lambda>(key, entry).
                 if key = filePath
                 then (key, entry\<lparr>entry_value := (entry_value entry)\<lparr>fi_lastModified := mtime, fi_size := fsize\<rparr>\<rparr>)
                 else (key, entry)) (cache c)\<rparr>\<rparr>
      | _ \<Rightarrow> ctx\<lparr>fileCache := c\<rparr>)"

definition updateProjectInfo :: "LightweightContext \<Rightarrow> LightweightContext" where
  "updateProjectInfo ctx = ctx\<lparr>projectInfo := Some (analyzeProject (LRUCache_values (fileCache ctx)))\<rparr>"

definition notifyWatchers :: "string \<Rightarrow> string \<Rightarrow> LightweightContext \<Rightarrow> LightweightContext" where
  "notifyWatchers event filePath ctx =
     (if isDestroyed ctx then ctx
      else ctx\<lparr>notified := notified ctx @ map (\<lambda>callback. (event, filePath)) (watcherCallbacks ctx)\<rparr>)"

text \<open>
  \<open>handleFileSystemEvent\<close> replaces the waiting timer by a new one; \<open>debounce_fire\<close> is
  the callback of the timer, 300 ms later.
\<close>

definition handleFileSystemEvent :: "change_type \<Rightarrow> string \<Rightarrow> LightweightContext \<Rightarrow> LightweightContext" where
  "handleFileSystemEvent eventType filePath ctx = ctx\<lparr>scanDebounceTimer := Pending_timer eventType filePath\<rparr>"

definition debounce_fire ::
  "int \<Rightarrow> (bool \<times> nat \<times> int) option \<Rightarrow> LightweightContext \<Rightarrow> LightweightContext" where
  "debounce_fire now stats ctx =
     (case scanDebounceTimer ctx of
        Pending_timer eventType filePath \<Rightarrow>
          (let ctx0 = ctx\<lparr>scanDebounceTimer := Fired_timer\<rparr>;
               ctx1 = (case eventType of
                         Add \<Rightarrow> notifyWatchers ''add'' filePath (addFileToCache now stats filePath ctx0)
                       | Unlink \<Rightarrow> notifyWatchers ''remove'' filePath (removeFileFromCache filePath ctx0)
                       | Change \<Rightarrow>
                           (let (present, c) = LRUCache_has now filePath (fileCache ctx0);
                                ctx' = ctx0\<lparr>fileCache := c\<rparr>
                            in if present
                               then notifyWatchers ''change'' filePath (updateFileInCache now stats filePath ctx')
                               else ctx'))
           in updateProjectInfo ctx1)
      | _ \<Rightarrow> ctx)"

section \<open>Workspace Pool Manager: \<open>WorkspaceContextManager\<close> (electron/workspace-context-manager)\<close>

record WorkspaceContextInstance =
  inst_context :: LightweightContext
  inst_workspacePath :: string
  createdAt :: int
  lastAccessed :: int
  isActive :: bool

record WorkspaceContextManager =
  instances :: "(string \<times> WorkspaceContextInstance) list"
  currentWorkspacePath :: "string option"
  cleanupInterval :: bool

definition MAX_INSTANCES :: nat where "MAX_INSTANCES = 5"
definition INSTANCE_TTL :: int where "INSTANCE_TTL = 30 * 60 * 1000"

definition WorkspaceContextManager_new :: WorkspaceContextManager where
  "WorkspaceContextManager_new = \<lparr>instances = [], currentWorkspacePath = None, cleanupInterval = True\<rparr>"

definition externals_new :: externals where
  "externals_new = \<lparr>watcher_service = FileWatcherService_new, persistence_calls = []\<rparr>"

text \<open>
  \<open>path.replace(/\\/g, '/').replace(/\/+$/, '')\<close>: backslashes become slashes and the
  slashes at the end are removed.
\<close>

definition normalizePath :: "string \<Rightarrow> string" where
  "normalizePath path =
     rev (dropWhile (\<lambda>c. c = CHR ''/'') (rev (map (\<lambda>c. if c = CHR 0x5C then CHR ''/'' else c) path)))"

text \<open>
  A path variable in a condition (\<open>if (this.currentWorkspacePath)\<close>, \<open>if (oldestPath)\<close>):
  \<open>null\<close> and the empty string count as false.
\<close>

definition truthy :: "string option \<Rightarrow> bool" where
  "truthy p = (case p of None \<Rightarrow> False | Some s \<Rightarrow> s \<noteq> [])"

definition deactivate ::
  "string \<Rightarrow> (string \<times> WorkspaceContextInstance) list \<Rightarrow> (string \<times> WorkspaceContextInstance) list" where
  "deactivate path insts =
     (case map_of insts path of
        Some prevInstance \<Rightarrow> AList.update path (prevInstance\<lparr>isActive := False\<rparr>) insts
      | None \<Rightarrow> insts)"

definition closeWorkspace ::
  "string \<Rightarrow> WorkspaceContextManager \<times> externals \<Rightarrow> WorkspaceContextManager \<times> externals" where
  "closeWorkspace path = (\<lambda>(m, ext).
     (let normalizedPath = normalizePath path in
      case map_of (instances m) normalizedPath of
        None \<Rightarrow> (m, ext)
      | Some instance \<Rightarrow>
          (let (ctx', service') = LightweightContext_cleanup (inst_context instance) (watcher_service ext)
           in (m\<lparr>instances := AList.delete normalizedPath (instances m),
                 currentWorkspacePath :=
                   (if currentWorkspacePath m = Some normalizedPath then None
                    else currentWorkspacePath m)\<rparr>,
               ext\<lparr>watcher_service := service'\<rparr>))))"

text \<open>
  The two loops of \<open>evictOldestInactiveInstance\<close> over the instances, which carry
  \<open>(oldestPath, oldestTime)\<close>; \<open>oldestTime\<close> starts at \<open>Date.now()\<close>.
\<close>

fun oldest_inactive ::
  "(string \<times> WorkspaceContextInstance) list \<Rightarrow> string option \<times> int \<Rightarrow> string option \<times> int" where
  "oldest_inactive [] acc = acc"
| "oldest_inactive ((path, instance) # rest) (oldestPath, oldestTime) =
     (if \<not> isActive instance \<and> lastAccessed instance < oldestTime
      then oldest_inactive rest (Some path, lastAccessed instance)
      else oldest_inactive rest (oldestPath, oldestTime))"

fun oldest_not_current ::
  "string option \<Rightarrow> (string \<times> WorkspaceContextInstance) list \<Rightarrow> string option \<times> int \<Rightarrow> string option \<times> int" where
  "oldest_not_current current [] acc = acc"
| "oldest_not_current current ((path, instance) # rest) (oldestPath, oldestTime) =
     (if Some path \<noteq> current \<and> lastAccessed instance < oldestTime
      then oldest_not_current current rest (Some path, lastAccessed instance)
      else oldest_not_current current rest (oldestPath, oldestTime))"

definition evictOldestInactiveInstance ::
  "int \<Rightarrow> WorkspaceContextManager \<times> externals \<Rightarrow> WorkspaceContextManager \<times> externals" where
  "evictOldestInactiveInstance now = (\<lambda>(m, ext).
     (let found = oldest_inactive (instances m) (None, now);
          (oldestPath, oldestTime) =
             (if \<not> truthy (fst found)
              then oldest_not_current (currentWorkspacePath m) (instances m) found
              else found)
      in if truthy oldestPath then closeWorkspace (the oldestPath) (m, ext) else (m, ext)))"

text \<open>
  \<open>getOrCreateContext(workspacePath)\<close>: \<open>env\<close> is the workspace the new instance finds
  when it is initialised, \<open>now\<close> the reading of the clock during the call.

  The function is \<open>async\<close>: it suspends at \<open>await this.evictOldestInactiveInstance()\<close>,
  before \<open>this.instances.set\<close>, and at \<open>await context.initialize(normalizedPath)\<close>. The
  model runs one call from its first statement to its last, with one clock reading: it
  is exact for calls that do not overlap (each has returned before the next operation of
  the manager starts). Of calls issued together it keeps the order in which they register
  their paths, each call reaching \<open>this.instances.set\<close> in the order of issue; an
  interleaving in which a second call enters while the first is suspended at the
  eviction is not a run of this model.
\<close>

definition getOrCreateContext ::
  "workspace_env \<Rightarrow> int \<Rightarrow> string \<Rightarrow> WorkspaceContextManager \<times> externals
     \<Rightarrow> (context_error + LightweightContext) \<times> WorkspaceContextManager \<times> externals" where
  "getOrCreateContext env now path = (\<lambda>(m, ext).
     (let normalizedPath = normalizePath path in
      case map_of (instances m) normalizedPath of
        Some instance \<Rightarrow>
          (let insts1 = AList.update normalizedPath
                          (instance\<lparr>lastAccessed := now, isActive := True\<rparr>) (instances m);
               insts2 = (if truthy (currentWorkspacePath m) \<and> currentWorkspacePath m \<noteq> Some normalizedPath
                         then deactivate (the (currentWorkspacePath m)) insts1 else insts1)
           in (Inr (inst_context instance),
               m\<lparr>instances := insts2, currentWorkspacePath := Some normalizedPath\<rparr>, ext))
      | None \<Rightarrow>
          (let instance = \<lparr>inst_context = LightweightContext_new, inst_workspacePath = normalizedPath,
                           createdAt = now, lastAccessed = now, isActive = True\<rparr>;
               (m1, ext1) = (if length (instances m) \<ge> MAX_INSTANCES
                             then evictOldestInactiveInstance now (m, ext) else (m, ext));
               insts2 = (if truthy (currentWorkspacePath m1)
                         then deactivate (the (currentWorkspacePath m1)) (instances m1)
                         else instances m1);
               m2 = m1\<lparr>instances := AList.update normalizedPath instance insts2,
                       currentWorkspacePath := Some normalizedPath\<rparr>
           in case LightweightContext_initialize env now normalizedPath LightweightContext_new ext1 of
                (Inl error, ctx', ext2) \<Rightarrow>
                  (Inl error,
                   m2\<lparr>instances := AList.delete normalizedPath (instances m2),
                      currentWorkspacePath :=
                        (if currentWorkspacePath m2 = Some normalizedPath then None
                         else currentWorkspacePath m2)\<rparr>,
                   ext2)
              | (Inr u, ctx', ext2) \<Rightarrow>
                  (Inr ctx',
                   m2\<lparr>instances := AList.update normalizedPath (instance\<lparr>inst_context := ctx'\<rparr>)
                                      (instances m2)\<rparr>,
                   ext2))))"

text \<open>\<open>forceCleanup()\<close>: the inactive instances idle for longer than the TTL are closed.\<close>

definition WorkspaceContextManager_forceCleanup ::
  "int \<Rightarrow> WorkspaceContextManager \<times> externals \<Rightarrow> nat \<times> WorkspaceContextManager \<times> externals" where
  "WorkspaceContextManager_forceCleanup now = (\<lambda>(m, ext).
     (let instancesToRemove =
            map fst (filter (\<lambda>(path, instance).
                       \<not> isActive instance \<and> now - lastAccessed instance > INSTANCE_TTL) (instances m))
      in (length instancesToRemove, fold closeWorkspace instancesToRemove (m, ext))))"

text \<open>The operations of the pool, and a run of them, each at a reading of the clock.\<close>

datatype pool_op = GetOrCreate workspace_env string | Close string | ForceCleanup

fun apply_pool_op ::
  "int \<Rightarrow> pool_op \<Rightarrow> WorkspaceContextManager \<times> externals \<Rightarrow> WorkspaceContextManager \<times> externals" where
  "apply_pool_op now (GetOrCreate env path) w = snd (getOrCreateContext env now path w)"
| "apply_pool_op now (Close path) w = closeWorkspace path w"
| "apply_pool_op now ForceCleanup w = snd (WorkspaceContextManager_forceCleanup now w)"

fun run_pool :: "(int \<times> pool_op) list \<Rightarrow> WorkspaceContextManager \<times> externals \<Rightarrow> WorkspaceContextManager \<times> externals" where
  "run_pool [] w = w"
| "run_pool ((now, op) # ops) w = run_pool ops (apply_pool_op now op w)"

text \<open>A workspace that exists, with no entries, no \<open>.gitignore\<close> and nothing persisted.\<close>

definition empty_workspace :: workspace_env where
  "empty_workspace =
     \<lparr>env_exists = True, env_entries = Some [], env_gitignore = None, env_persisted = None,
      env_scan = [], env_fs = (\<lambda>path. FsDir [])\<rparr>"

text \<open>
  An instance that was initialised on the workspace \<open>/w\<close> and then cleaned up, so that
  its destroyed flag is set.
\<close>

definition destroyed_context :: LightweightContext where
  "destroyed_context =
     fst (LightweightContext_cleanup
       (fst (snd (LightweightContext_initialize empty_workspace 0 ''/w'' LightweightContext_new
          externals_new)))
       FileWatcherService_new)"

text \<open>
  A workspace root that holds three project-like subdirectories, in which the scan
  accepts \<open>n\<close> files with different paths.
\<close>

definition scanned_file :: "nat \<Rightarrow> FileInfo" where
  "scanned_file i =
     \<lparr>fi_path = ''/w/'' @ replicate (Suc i) CHR ''f'', fi_name = replicate (Suc i) CHR ''f'',
      fi_size = 10, fi_language = ''unknown'', fi_lastModified = 0, fi_relevanceScore = None\<rparr>"

definition multi_project_workspace :: "nat \<Rightarrow> workspace_env" where
  "multi_project_workspace n =
     \<lparr>env_exists = True,
      env_entries = Some [(''app1'', Some (True, True)), (''app2'', Some (True, True)),
                          (''app3'', Some (True, True))],
      env_gitignore = None, env_persisted = None,
      env_scan = map (\<lambda>i. (1, scanned_file i)) [0..<n],
      env_fs = (\<lambda>path. FsDir [])\<rparr>"

text \<open>The instance after \<open>initialize\<close> on that root, when the scan accepts 200 files.\<close>

definition multi_project_context :: LightweightContext where
  "multi_project_context =
     fst (snd (LightweightContext_initialize (multi_project_workspace 200) 1 ''/w''
       LightweightContext_new externals_new))"

text \<open>
  The instance that \<open>initialize\<close> leaves on an empty workspace, and six requests for
  six different workspaces made while the clock shows the same millisecond.
\<close>

definition initialized_context :: "int \<Rightarrow> string \<Rightarrow> LightweightContext" where
  "initialized_context now path =
     LightweightContext_new\<lparr>workspacePath := path, projectInfo := Some (analyzeProject []),
       lastScanTime := now, fileWatcherCleanup := True, memoryMonitorInterval := True\<rparr>"

definition six_workspaces :: "(int \<times> pool_op) list" where
  "six_workspaces =
     [(1000, GetOrCreate empty_workspace ''/w1''), (1000, GetOrCreate empty_workspace ''/w2''),
      (1000, GetOrCreate empty_workspace ''/w3''), (1000, GetOrCreate empty_workspace ''/w4''),
      (1000, GetOrCreate empty_workspace ''/w5''), (1000, GetOrCreate empty_workspace ''/w6'')]"

text \<open>
  The invariant of the pool at clock reading \<open>T\<close>: the keys are different, normalised
  and not empty, no instance was accessed after \<open>T\<close>, and the pool holds at most
  \<open>MAX_INSTANCES\<close> instances.
\<close>

definition insts_ok :: "int \<Rightarrow> (string \<times> WorkspaceContextInstance) list \<Rightarrow> bool" where
  "insts_ok T insts \<longleftrightarrow>
     distinct (map fst insts)
     \<and> (\<forall>(p, i) \<in> set insts. lastAccessed i \<le> T \<and> normalizePath p = p \<and> p \<noteq> [])"

definition pool_ok :: "int \<Rightarrow> WorkspaceContextManager \<times> externals \<Rightarrow> bool" where
  "pool_ok T w \<longleftrightarrow>
     insts_ok T (instances (fst w)) \<and> length (instances (fst w)) \<le> MAX_INSTANCES"

section \<open>Expiry on lookup\<close>

lemma map_of_delete_self: "map_of (AList.delete k xs) k = None"
  by (simp add: delete_conv')

text \<open>
  C8. For every cache entry whose age (now minus the entry's timestamp) exceeds
  \<open>maxAge\<close> at the time of the call, \<open>get\<close> returns absent and \<open>has\<close> returns false,
  even though the entry was never explicitly deleted, and the expired entry is removed
  from the map as a side effect of either call.
\<close>

theorem expired_entry_absent_and_removed:
  assumes "map_of (cache c) key = Some entry"
    and "now - timestamp entry > maxAge c"
  shows "fst (LRUCache_get now key c) = None
       \<and> fst (LRUCache_has now key c) = False
       \<and> map_of (cache (snd (LRUCache_get now key c))) key = None
       \<and> map_of (cache (snd (LRUCache_has now key c))) key = None
       \<and> key \<notin> set (LRUCache_keys (snd (LRUCache_get now key c)))
       \<and> key \<notin> set (LRUCache_keys (snd (LRUCache_has now key c)))"
  using assms
  by (simp add: LRUCache_get_def LRUCache_has_def LRUCache_delete_def expired_def
      LRUCache_keys_def map_of_delete_self delete_notin_dom)

theorem expired_entry_absent_and_removed_witness:
  "fst (LRUCache_get 1800002 ''a''
      (LRUCache_set (1::int) ''a'' (7::nat) (LRUCache_new 3 1800000))) = None
   \<and> fst (LRUCache_has 1800002 ''a''
      (LRUCache_set 1 ''a'' (7::nat) (LRUCache_new 3 1800000))) = False
   \<and> LRUCache_keys (snd (LRUCache_get 1800002 ''a''
      (LRUCache_set 1 ''a'' (7::nat) (LRUCache_new 3 1800000)))) = []
   \<and> fst (LRUCache_get 1800001 ''a''
      (LRUCache_set 1 ''a'' (7::nat) (LRUCache_new 3 1800000))) = Some 7"
  using expired_entry_absent_and_removed
    [of "LRUCache_set 1 ''a'' (7::nat) (LRUCache_new 3 1800000)" "''a''"
        "\<lparr>entry_value = 7, timestamp = 1, accessCount = 1\<rparr>" 1800002]
  by (simp add: LRUCache_set_def LRUCache_new_def LRUCache_get_def LRUCache_has_def
      LRUCache_delete_def LRUCache_keys_def expired_def)

section \<open>Expiry is measured from the last access\<close>

lemma get_hit_state:
  assumes "map_of (cache c) key = Some entry" and "now - timestamp entry \<le> maxAge c"
  shows "LRUCache_get now key c =
     (Some (entry_value entry),
      c\<lparr>cache := AList.update key
           (entry\<lparr>accessCount := accessCount entry + 1, timestamp := now\<rparr>) (cache c),
        accessOrder := remove1 key (accessOrder c) @ [key]\<rparr>)"
  using assms by (simp add: LRUCache_get_def expired_def)

lemma set_existing_state:
  assumes "map_of (cache c) key = Some entry"
  shows "LRUCache_set now key v c =
     c\<lparr>cache := AList.update key
          (entry\<lparr>entry_value := v, timestamp := now,
                 accessCount := accessCount entry + 1\<rparr>) (cache c),
       accessOrder := remove1 key (accessOrder c) @ [key]\<rparr>"
  using assms by (simp add: LRUCache_set_def)

lemma access_key_never_idle:
  assumes "map_of (cache c) key = Some entry"
    and "never_idle (maxAge c) (timestamp entry) (map fst as)"
  shows "list_all (\<lambda>hit. hit) (fst (access_key key as c))
       \<and> (\<exists>entry'. map_of (cache (snd (access_key key as c))) key = Some entry'
            \<and> timestamp entry' = last (timestamp entry # map fst as)
            \<and> accessCount entry' = accessCount entry + length as)"
  using assms
proof (induction as arbitrary: c entry)
  case Nil
  then show ?case by simp
next
  case (Cons a as)
  obtain now acc where a: "a = (now, acc)" by (cases a)
  from Cons.prems have idle: "now - timestamp entry \<le> maxAge c"
    and rest: "never_idle (maxAge c) now (map fst as)"
    by (simp_all add: a)
  show ?case
  proof (cases acc)
    case Access_get
    let ?e = "entry\<lparr>accessCount := accessCount entry + 1, timestamp := now\<rparr>"
    let ?c = "c\<lparr>cache := AList.update key ?e (cache c),
                 accessOrder := remove1 key (accessOrder c) @ [key]\<rparr>"
    have g: "LRUCache_get now key c = (Some (entry_value entry), ?c)"
      using get_hit_state [OF Cons.prems(1) idle] .
    have m: "map_of (cache ?c) key = Some ?e" by (simp add: update_conv')
    have "never_idle (maxAge ?c) (timestamp ?e) (map fst as)" using rest by simp
    from Cons.IH [OF m this] show ?thesis
      by (auto simp: a Access_get g split: prod.splits)
  next
    case (Access_set v)
    let ?e = "entry\<lparr>entry_value := v, timestamp := now,
                    accessCount := accessCount entry + 1\<rparr>"
    let ?c = "c\<lparr>cache := AList.update key ?e (cache c),
                 accessOrder := remove1 key (accessOrder c) @ [key]\<rparr>"
    have s: "LRUCache_set now key v c = ?c"
      using set_existing_state [OF Cons.prems(1)] .
    have m: "map_of (cache ?c) key = Some ?e" by (simp add: update_conv')
    have "never_idle (maxAge ?c) (timestamp ?e) (map fst as)" using rest by simp
    from Cons.IH [OF m this] show ?thesis
      by (auto simp: a Access_set s)
  qed
qed

text \<open>
  C10. A \<open>get\<close> hit on a live entry and a \<open>set\<close> on an existing key both reset the
  entry's timestamp to the current clock reading, so expiry is measured from the last
  access or update and not from insertion: when every access to a key comes at most
  \<open>maxAge\<close> after the one before (the first at most \<open>maxAge\<close> after the entry's
  timestamp), every \<open>get\<close> among them is a hit and the entry is still in the cache at
  the end, carrying the time of the last access, however long the run lasts.
\<close>

theorem access_refreshes_timestamp:
  assumes "map_of (cache c) key = Some entry"
  shows "(now - timestamp entry \<le> maxAge c \<longrightarrow>
            fst (LRUCache_get now key c) = Some (entry_value entry)
          \<and> map_option timestamp (map_of (cache (snd (LRUCache_get now key c))) key) = Some now)
       \<and> map_option timestamp (map_of (cache (LRUCache_set now key v c)) key) = Some now
       \<and> (never_idle (maxAge c) (timestamp entry) (map fst as) \<longrightarrow>
            list_all (\<lambda>hit. hit) (fst (access_key key as c))
          \<and> map_option timestamp (map_of (cache (snd (access_key key as c))) key)
              = Some (last (timestamp entry # map fst as))
          \<and> map_option accessCount (map_of (cache (snd (access_key key as c))) key)
              = Some (accessCount entry + length as))"
proof (intro conjI impI)
  assume live: "now - timestamp entry \<le> maxAge c"
  show "fst (LRUCache_get now key c) = Some (entry_value entry)"
    by (simp add: get_hit_state [OF assms live])
  show "map_option timestamp (map_of (cache (snd (LRUCache_get now key c))) key) = Some now"
    by (simp add: get_hit_state [OF assms live] update_conv')
next
  show "map_option timestamp (map_of (cache (LRUCache_set now key v c)) key) = Some now"
    by (simp add: set_existing_state [OF assms] update_conv')
next
  assume idle: "never_idle (maxAge c) (timestamp entry) (map fst as)"
  from access_key_never_idle [OF assms idle]
  obtain entry' where hits: "list_all (\<lambda>hit. hit) (fst (access_key key as c))"
    and e': "map_of (cache (snd (access_key key as c))) key = Some entry'"
      "timestamp entry' = last (timestamp entry # map fst as)"
      "accessCount entry' = accessCount entry + length as"
    by blast
  show "list_all (\<lambda>hit. hit) (fst (access_key key as c))" using hits .
  show "map_option timestamp (map_of (cache (snd (access_key key as c))) key)
      = Some (last (timestamp entry # map fst as))"
    using e' by simp
  show "map_option accessCount (map_of (cache (snd (access_key key as c))) key)
      = Some (accessCount entry + length as)"
    using e' by simp
qed

text \<open>
  An entry inserted at time 0 with \<open>maxAge\<close> 10 and touched at times 10, 20, 30 and 40
  is still a hit at time 40, four times \<open>maxAge\<close> after its insertion.
\<close>

theorem access_refreshes_timestamp_witness:
  "fst (access_key ''a'' [(10, Access_get), (20, Access_set 8), (30, Access_get), (40, Access_get)]
      (LRUCache_set 0 ''a'' (7::nat) (LRUCache_new 3 10))) = [True, True, True]
   \<and> map_option timestamp (map_of (cache (snd (access_key ''a''
        [(10, Access_get), (20, Access_set 8), (30, Access_get), (40, Access_get)]
        (LRUCache_set 0 ''a'' (7::nat) (LRUCache_new 3 10))))) ''a'') = Some 40
   \<and> fst (LRUCache_get 10 ''a'' (LRUCache_set 0 ''a'' (7::nat) (LRUCache_new 3 10))) = Some 7"
  using access_refreshes_timestamp
    [of "LRUCache_set 0 ''a'' (7::nat) (LRUCache_new 3 10)" "''a''"
        "\<lparr>entry_value = 7, timestamp = 0, accessCount = 1\<rparr>" 10 8
        "[(10, Access_get), (20, Access_set 8), (30, Access_get), (40, Access_get)]"]
  by (simp add: LRUCache_set_def LRUCache_new_def LRUCache_get_def expired_def)

section \<open>Capacity bound and eviction order\<close>






















lemma length_update_present:
  "map_of cs k = Some e \<Longrightarrow> length (AList.update k e' cs) = length cs"
  by (induction cs) (auto split: if_splits)

lemma length_update_absent:
  "map_of cs k = None \<Longrightarrow> length (AList.update k e' cs) = Suc (length cs)"
  by (induction cs) (auto split: if_splits)



















section \<open>Manual refresh\<close>

lemma set_add_subset: "set xs \<subseteq> set (set_add x xs)"
  by (auto simp: set_add_def)

lemma set_add_mem: "x \<in> set (set_add x xs)"
  by (auto simp: set_add_def)

lemma scan_mono:
  "scanFiles idx d cur rel node acc = Some acc' \<Longrightarrow> set (fst acc) \<subseteq> set (fst acc')"
  "scan_entries idx d cur rel es acc = Some acc' \<Longrightarrow> set (fst acc) \<subseteq> set (fst acc')"
proof (induction idx d cur rel node acc and idx d cur rel es acc arbitrary: acc' and acc'
    rule: scanFiles_scan_entries.induct)
  case (1 currentIndex depth currentPath rel entries acc)
  show ?case
  proof (cases "depth > 3")
    case True
    then show ?thesis using "1.prems" by simp
  next
    case False
    then show ?thesis using "1.prems" "1.IH" [OF False] by simp
  qed
next
  case (2 currentIndex depth currentPath rel acc)
  then show ?case by (simp split: if_splits)
next
  case (3 currentIndex depth currentPath rel acc)
  then show ?case by (simp split: if_splits)
next
  case (4 currentIndex depth currentPath rel acc)
  then show ?case by (simp split: if_splits)
next
  case (5 currentIndex depth currentPath rel acc)
  then show ?case by simp
next
  case (6 currentIndex depth currentPath rel name node rest newFiles changes)
  let ?full = "path_join currentPath name"
  let ?relp = "relative_join rel name"
  show ?case
  proof (cases "shouldIgnoreFile ?relp")
    case True
    then have "scan_entries currentIndex depth currentPath rel rest (newFiles, changes) = Some acc'"
      using "6.prems" by (simp add: Let_def)
    from "6.IH"(1) [OF refl refl True this] show ?thesis .
  next
    case notign: False
    show ?thesis
    proof (cases "isFile node")
      case True
      let ?acc = "(set_add ?full newFiles,
          if ?full \<notin> set currentIndex
          then changes @ [\<lparr>ev_type = Add, ev_path = ?full, ev_relativePath = ?relp\<rparr>]
          else changes)"
      have run: "scan_entries currentIndex depth currentPath rel rest ?acc = Some acc'"
        using "6.prems"(1) notign True by (simp add: Let_def)
      from "6.IH"(2) [OF refl refl notign True run]
      show ?thesis using set_add_subset [of newFiles ?full] by simp
    next
      case nofile: False
      show ?thesis
      proof (cases "isDirectory node \<and> depth < 3")
        case True
        from "6.prems"(1) notign nofile True obtain acc1 where
          r1: "scanFiles currentIndex (depth + 1) ?full ?relp node (newFiles, changes) = Some acc1"
          and r2: "scan_entries currentIndex depth currentPath rel rest acc1 = Some acc'"
          by (auto simp: Let_def split: option.splits)
        from "6.IH"(3) [OF refl refl notign nofile True r1]
          "6.IH"(4) [OF refl refl notign nofile True r1 r2]
        show ?thesis by simp
      next
        case False
        have "scan_entries currentIndex depth currentPath rel rest (newFiles, changes) = Some acc'"
          using "6.prems"(1) notign nofile False by (auto simp: Let_def)
        from "6.IH"(5) [OF refl refl notign nofile False this]
        show ?thesis .
      qed
    qed
  qed
qed

lemma scan_no_add:
  "scanFiles idx d cur rel node acc = Some acc' \<Longrightarrow> set (fst acc') \<subseteq> set idx \<Longrightarrow> snd acc' = snd acc"
  "scan_entries idx d cur rel es acc = Some acc' \<Longrightarrow> set (fst acc') \<subseteq> set idx \<Longrightarrow> snd acc' = snd acc"
proof (induction idx d cur rel node acc and idx d cur rel es acc arbitrary: acc' and acc'
    rule: scanFiles_scan_entries.induct)
  case (6 currentIndex depth currentPath rel name node rest newFiles changes)
  let ?full = "path_join currentPath name"
  let ?relp = "relative_join rel name"
  show ?case
  proof (cases "shouldIgnoreFile ?relp")
    case True
    then show ?thesis using "6.prems" "6.IH"(1) by (simp add: Let_def)
  next
    case notign: False
    show ?thesis
    proof (cases "isFile node")
      case True
      let ?acc = "(set_add ?full newFiles,
          if ?full \<notin> set currentIndex
          then changes @ [\<lparr>ev_type = Add, ev_path = ?full, ev_relativePath = ?relp\<rparr>]
          else changes)"
      have run: "scan_entries currentIndex depth currentPath rel rest ?acc = Some acc'"
        using "6.prems"(1) notign True by (simp add: Let_def)
      have "?full \<in> set (fst acc')"
        using scan_mono(2) [OF run] set_add_mem [of ?full newFiles] by auto
      then have "?full \<in> set currentIndex" using "6.prems"(2) by blast
      moreover have "snd acc' = snd ?acc"
        using "6.IH"(2) [OF refl refl notign True run "6.prems"(2)] .
      ultimately show ?thesis by simp
    next
      case nofile: False
      show ?thesis
      proof (cases "isDirectory node \<and> depth < 3")
        case True
        from "6.prems"(1) notign nofile True obtain acc1 where
          r1: "scanFiles currentIndex (depth + 1) ?full ?relp node (newFiles, changes) = Some acc1"
          and r2: "scan_entries currentIndex depth currentPath rel rest acc1 = Some acc'"
          by (auto simp: Let_def split: option.splits)
        have sub: "set (fst acc1) \<subseteq> set currentIndex"
          using scan_mono(2) [OF r2] "6.prems"(2) by blast
        have "snd acc1 = changes"
          using "6.IH"(3) [OF refl refl notign nofile True r1 sub] by simp
        moreover have "snd acc' = snd acc1"
          using "6.IH"(4) [OF refl refl notign nofile True r1 r2 "6.prems"(2)] .
        ultimately show ?thesis by simp
      next
        case False
        have "scan_entries currentIndex depth currentPath rel rest (newFiles, changes) = Some acc'"
          using "6.prems"(1) notign nofile False by (auto simp: Let_def)
        from "6.IH"(5) [OF refl refl notign nofile False this "6.prems"(2)]
        show ?thesis by simp
      qed
    qed
  qed
next
  case (1 currentIndex depth currentPath rel entries acc)
  show ?case
  proof (cases "depth > 3")
    case True
    then show ?thesis using "1.prems" by simp
  next
    case False
    then show ?thesis using "1.prems" "1.IH" [OF False] by simp
  qed
next
  case (2 currentIndex depth currentPath rel acc)
  then show ?case by (simp split: if_splits)
next
  case (3 currentIndex depth currentPath rel acc)
  then show ?case by (simp split: if_splits)
next
  case (4 currentIndex depth currentPath rel acc)
  then show ?case by (simp split: if_splits)
next
  case (5 currentIndex depth currentPath rel acc)
  then show ?case by simp
qed


lemma scan_indep:
  "map_option fst (scanFiles idx d cur rel node acc)
     = map_option fst (scanFiles idx' d cur rel node (fst acc, ch'))"
  "map_option fst (scan_entries idx d cur rel es acc)
     = map_option fst (scan_entries idx' d cur rel es (fst acc, ch'))"
proof (induction idx d cur rel node acc and idx d cur rel es acc arbitrary: ch' and ch'
    rule: scanFiles_scan_entries.induct)
  case (6 currentIndex depth currentPath rel name node rest newFiles changes)
  let ?full = "path_join currentPath name"
  let ?relp = "relative_join rel name"
  show ?case
  proof (cases "shouldIgnoreFile ?relp")
    case True
    then show ?thesis using "6.IH"(1) [OF refl refl True, of ch'] by (simp add: Let_def)
  next
    case notign: False
    show ?thesis
    proof (cases "isFile node")
      case True
      then show ?thesis
        using "6.IH"(2) [OF refl refl notign True] notign by (simp add: Let_def)
    next
      case nofile: False
      show ?thesis
      proof (cases "isDirectory node \<and> depth < 3")
        case True
        note ih3 = "6.IH"(3) [OF refl refl notign nofile True, of ch']
        show ?thesis
        proof (cases "scanFiles currentIndex (depth + 1) ?full ?relp node (newFiles, changes)")
          case None
          then have "scanFiles idx' (depth + 1) ?full ?relp node (newFiles, ch') = None"
            using ih3 by simp
          then show ?thesis using None notign nofile True by (simp add: Let_def)
        next
          case (Some acc1)
          then obtain acc2 where
            s2: "scanFiles idx' (depth + 1) ?full ?relp node (newFiles, ch') = Some acc2"
            and eq: "fst acc2 = fst acc1"
            using ih3 by (cases "scanFiles idx' (depth + 1) ?full ?relp node (newFiles, ch')") auto
          have "map_option fst (scan_entries currentIndex depth currentPath rel rest acc1)
              = map_option fst (scan_entries idx' depth currentPath rel rest (fst acc1, snd acc2))"
            using "6.IH"(4) [OF refl refl notign nofile True Some] .
          moreover have "(fst acc1, snd acc2) = acc2" using eq by (cases acc2) simp
          ultimately show ?thesis using Some s2 notign nofile True by (simp add: Let_def)
        qed
      next
        case False
        have "scan_entries currentIndex depth currentPath rel ((name, node) # rest) (newFiles, changes)
            = scan_entries currentIndex depth currentPath rel rest (newFiles, changes)"
          "scan_entries idx' depth currentPath rel ((name, node) # rest) (newFiles, ch')
            = scan_entries idx' depth currentPath rel rest (newFiles, ch')"
          using notign nofile False by (auto simp: Let_def)
        then show ?thesis
          using "6.IH"(5) [OF refl refl notign nofile False, of ch'] by simp
      qed
    qed
  qed
next
  case (1 currentIndex depth currentPath rel entries acc)
  show ?case
  proof (cases "depth > 3")
    case True
    then show ?thesis by simp
  next
    case False
    then show ?thesis using "1.IH" [OF False, of ch'] by simp
  qed
qed simp_all


lemma fold_emit_file_change:
  "fold (\<lambda>change. emit (Emit_file_change d change)) cs s =
     s\<lparr>emitted := emitted s @ map (Emit_file_change d) cs\<rparr>"
  by (induction cs arbitrary: s) (simp_all add: emit_def)

lemma deleted_files_same: "deleted_files d files files = []"
  by (simp add: deleted_files_def)

lemma manualRefresh_failure:
  assumes "scanFiles (case map_of (fileIndex s) d of Some files \<Rightarrow> files | None \<Rightarrow> []) 0 d [] (fs d) ([], []) = None"
  shows "manualRefresh fs d s = (Inl Readdir_failed, s)"
  using assms by (simp add: manualRefresh_def)

lemma manualRefresh_success:
  assumes "scanFiles (case map_of (fileIndex s) d of Some files \<Rightarrow> files | None \<Rightarrow> []) 0 d [] (fs d) ([], [])
      = Some (newFiles, added)"
  shows "manualRefresh fs d s =
     (Inr (added @ deleted_files d (case map_of (fileIndex s) d of Some files \<Rightarrow> files | None \<Rightarrow> []) newFiles,
           length newFiles),
      s\<lparr>fileIndex := AList.update d newFiles (fileIndex s),
        emitted := emitted s @ map (Emit_file_change d)
          (added @ deleted_files d (case map_of (fileIndex s) d of Some files \<Rightarrow> files | None \<Rightarrow> []) newFiles)\<rparr>)"
  using assms by (simp add: manualRefresh_def Let_def fold_emit_file_change)

lemma rescan_recorded:
  assumes "scanFiles idx 0 d [] node ([], []) = Some (newFiles, added)"
  shows "scanFiles newFiles 0 d [] node ([], []) = Some (newFiles, [])"
proof -
  from scan_indep(1) [of idx 0 d "[]" node "([], [])" newFiles "[]"] assms
  obtain ch where r: "scanFiles newFiles 0 d [] node ([], []) = Some (newFiles, ch)"
    by (cases "scanFiles newFiles 0 d [] node ([], [])") auto
  from scan_no_add(1) [OF r] have "ch = []" by simp
  with r show ?thesis by simp
qed

lemma manualRefresh_second:
  "manualRefresh fs d (snd (manualRefresh fs d s)) =
     (case fst (manualRefresh fs d s) of
        Inl e \<Rightarrow> (Inl e, snd (manualRefresh fs d s))
      | Inr (changes, totalFiles) \<Rightarrow> (Inr ([], totalFiles), snd (manualRefresh fs d s)))"
proof -
  let ?idx = "case map_of (fileIndex s) d of Some files \<Rightarrow> files | None \<Rightarrow> []"
  show ?thesis
  proof (cases "scanFiles ?idx 0 d [] (fs d) ([], [])")
    case None
    then show ?thesis by (simp add: manualRefresh_failure)
  next
    case (Some acc)
    obtain newFiles added where acc: "acc = (newFiles, added)" by (cases acc)
    let ?changes = "added @ deleted_files d ?idx newFiles"
    let ?s1 = "s\<lparr>fileIndex := AList.update d newFiles (fileIndex s),
        emitted := emitted s @ map (Emit_file_change d) ?changes\<rparr>"
    have first: "manualRefresh fs d s = (Inr (?changes, length newFiles), ?s1)"
      using manualRefresh_success [of s d fs newFiles added] Some acc by simp
    have idx1: "(case map_of (fileIndex ?s1) d of Some files \<Rightarrow> files | None \<Rightarrow> []) = newFiles"
      by (simp add: update_conv')
    have "scanFiles newFiles 0 d [] (fs d) ([], []) = Some (newFiles, [])"
      using rescan_recorded Some acc by simp
    then have "manualRefresh fs d ?s1 =
        (Inr ([] @ deleted_files d newFiles newFiles, length newFiles),
         ?s1\<lparr>fileIndex := AList.update d newFiles (fileIndex ?s1),
            emitted := emitted ?s1 @ map (Emit_file_change d) ([] @ deleted_files d newFiles newFiles)\<rparr>)"
      using manualRefresh_success [of ?s1 d fs newFiles "[]"] unfolding idx1 by simp
    then have "manualRefresh fs d ?s1 = (Inr ([], length newFiles), ?s1)"
      by (simp add: deleted_files_same)
    then show ?thesis by (simp add: first)
  qed
qed

text \<open>
  C7. For every root, file system and state of the service, running \<open>manualRefresh\<close>
  twice in a row with no file-system change in between produces no notification at all
  on the second call, so zero add events and zero remove (unlink) events, and its list
  of changes is empty: when the first call succeeds it replaces the recorded path set of
  the root with the freshly scanned set, against which the second scan finds nothing new
  and nothing missing; when the first call fails (the root cannot be read) it changes
  nothing and the second call fails in the same way.
\<close>

theorem manualRefresh_twice_no_events:
  "emitted (snd (manualRefresh fs dirPath (snd (manualRefresh fs dirPath s))))
     = emitted (snd (manualRefresh fs dirPath s))
   \<and> filter is_add_event (drop (length (emitted (snd (manualRefresh fs dirPath s))))
        (emitted (snd (manualRefresh fs dirPath (snd (manualRefresh fs dirPath s)))))) = []
   \<and> filter is_unlink_event (drop (length (emitted (snd (manualRefresh fs dirPath s))))
        (emitted (snd (manualRefresh fs dirPath (snd (manualRefresh fs dirPath s)))))) = []
   \<and> (case fst (manualRefresh fs dirPath (snd (manualRefresh fs dirPath s))) of
         Inr (changes, totalFiles) \<Rightarrow> changes = []
       | Inl e \<Rightarrow> fst (manualRefresh fs dirPath s) = Inl e)
   \<and> (case fst (manualRefresh fs dirPath s) of
         Inr (changes, totalFiles) \<Rightarrow>
           (\<exists>newFiles. map_of (fileIndex (snd (manualRefresh fs dirPath s))) dirPath = Some newFiles
              \<and> length newFiles = totalFiles
              \<and> scanFiles newFiles 0 dirPath [] (fs dirPath) ([], []) = Some (newFiles, []))
       | Inl e \<Rightarrow> snd (manualRefresh fs dirPath s) = s)"
proof -
  let ?idx = "case map_of (fileIndex s) dirPath of Some files \<Rightarrow> files | None \<Rightarrow> []"
  note second = manualRefresh_second [of fs dirPath s]
  show ?thesis
  proof (cases "scanFiles ?idx 0 dirPath [] (fs dirPath) ([], [])")
    case None
    then show ?thesis using second by (simp add: manualRefresh_failure)
  next
    case (Some acc)
    obtain newFiles added where acc: "acc = (newFiles, added)" by (cases acc)
    have first: "manualRefresh fs dirPath s =
       (Inr (added @ deleted_files dirPath ?idx newFiles, length newFiles),
        s\<lparr>fileIndex := AList.update dirPath newFiles (fileIndex s),
          emitted := emitted s @ map (Emit_file_change dirPath)
            (added @ deleted_files dirPath ?idx newFiles)\<rparr>)"
      using manualRefresh_success [of s dirPath fs newFiles added] Some acc by simp
    have re: "scanFiles newFiles 0 dirPath [] (fs dirPath) ([], []) = Some (newFiles, [])"
      using rescan_recorded Some acc by simp
    show ?thesis using second re by (simp add: first update_conv')
  qed
qed

lemma ex_scan: "shouldIgnoreFile ''a.ts'' = False" "shouldIgnoreFile ''src'' = False"
  "shouldIgnoreFile ''src/b.ts'' = False" "shouldIgnoreFile ''node_modules'' = True"
  "shouldIgnoreFile ''debug.log'' = True"
  by (simp_all add: shouldIgnoreFile_def ignoredPatterns_def line_break_def)

theorem manualRefresh_twice_no_events_witness:
  "emitted (snd (manualRefresh example_workspace ''/w'' FileWatcherService_new)) =
     [Emit_file_change ''/w'' \<lparr>ev_type = Add, ev_path = ''/w/a.ts'', ev_relativePath = ''a.ts''\<rparr>,
      Emit_file_change ''/w'' \<lparr>ev_type = Add, ev_path = ''/w/src/b.ts'', ev_relativePath = ''src/b.ts''\<rparr>]
   \<and> emitted (snd (manualRefresh example_workspace ''/w''
        (snd (manualRefresh example_workspace ''/w'' FileWatcherService_new)))) =
     [Emit_file_change ''/w'' \<lparr>ev_type = Add, ev_path = ''/w/a.ts'', ev_relativePath = ''a.ts''\<rparr>,
      Emit_file_change ''/w'' \<lparr>ev_type = Add, ev_path = ''/w/src/b.ts'', ev_relativePath = ''src/b.ts''\<rparr>]"
proof -
  have first: "emitted (snd (manualRefresh example_workspace ''/w'' FileWatcherService_new)) =
     [Emit_file_change ''/w'' \<lparr>ev_type = Add, ev_path = ''/w/a.ts'', ev_relativePath = ''a.ts''\<rparr>,
      Emit_file_change ''/w'' \<lparr>ev_type = Add, ev_path = ''/w/src/b.ts'', ev_relativePath = ''src/b.ts''\<rparr>]"
    by (simp add: manualRefresh_def example_workspace_def FileWatcherService_new_def path_join_def
        relative_join_def ex_scan set_add_def deleted_files_def emit_def Let_def)
  from manualRefresh_twice_no_events [of example_workspace "''/w''" FileWatcherService_new]
  have "emitted (snd (manualRefresh example_workspace ''/w''
        (snd (manualRefresh example_workspace ''/w'' FileWatcherService_new))))
      = emitted (snd (manualRefresh example_workspace ''/w'' FileWatcherService_new))"
    by (rule conjunct1)
  with first show ?thesis by simp
qed

section \<open>Watching is disabled; resource exhaustion\<close>

lemma large_workspace_estimate: "getDirectoryStats large_workspace ''/big'' = 15901"
  by (simp add: getDirectoryStats_def large_workspace_def toLowerCase_def toLowerCase_char_def
      comp_def)

text \<open>
  C2. Every call of \<open>watchDirectory\<close>, for every directory path, every options argument,
  every file system and every state of the service (strategy setting, fallback state,
  watcher count), does nothing but emit the notification \<open>directory:skipped\<close> with reason
  \<open>emergency_disabled\<close>: it issues no call of the operating system's watch primitive,
  registers no entry in the watcher map and leaves the watcher count as it was.
\<close>

theorem watchDirectory_emergency_disabled:
  "watchDirectory fs dirPath options s
     = s\<lparr>emitted := emitted s @ [Emit_directory_skipped dirPath ''emergency_disabled'']\<rparr>
   \<and> os_watch_calls (watchDirectory fs dirPath options s) = os_watch_calls s
   \<and> watchers (watchDirectory fs dirPath options s) = watchers s
   \<and> watcherCount (watchDirectory fs dirPath options s) = watcherCount s"
  by (simp add: watchDirectory_def emit_def)

text \<open>
  C3 (as amended). For every root whose estimated file count exceeds the large-tree
  threshold, \<open>watchDirectory\<close> emits the notification \<open>directory:skipped\<close> with reason
  \<open>emergency_disabled\<close> and issues no native watch call for that root; it registers no
  bookkeeping entry: the watcher map, the file index and the watcher count are unchanged.
\<close>

theorem large_directory_skipped_without_bookkeeping:
  assumes "getDirectoryStats fs dirPath > large_tree_threshold"
  shows "emitted (watchDirectory fs dirPath options s)
           = emitted s @ [Emit_directory_skipped dirPath ''emergency_disabled'']
       \<and> os_watch_calls (watchDirectory fs dirPath options s) = os_watch_calls s
       \<and> map_of (watchers (watchDirectory fs dirPath options s)) dirPath = map_of (watchers s) dirPath
       \<and> map_of (fileIndex (watchDirectory fs dirPath options s)) dirPath = map_of (fileIndex s) dirPath
       \<and> watcherCount (watchDirectory fs dirPath options s) = watcherCount s"
  by (simp add: watchDirectory_def emit_def)

theorem large_directory_skipped_without_bookkeeping_witness:
  "getDirectoryStats large_workspace ''/big'' > large_tree_threshold
   \<and> emitted (watchDirectory large_workspace ''/big'' retry_options FileWatcherService_new)
       = [Emit_directory_skipped ''/big'' ''emergency_disabled'']
   \<and> os_watch_calls (watchDirectory large_workspace ''/big'' retry_options FileWatcherService_new) = []"
proof -
  have big: "getDirectoryStats large_workspace ''/big'' > large_tree_threshold"
    by (simp add: large_workspace_estimate large_tree_threshold_def)
  from large_directory_skipped_without_bookkeeping [OF big, of retry_options FileWatcherService_new]
  show ?thesis using big by (simp add: FileWatcherService_new_def)
qed

text \<open>
  The claim as stated fails: for a root estimated at 15901 files, \<open>watchDirectory\<close> on a
  fresh service leaves the watcher map without an entry for the root and the watcher
  count at 0, and emits no \<open>ready\<close> notification.
\<close>

theorem large_directory_counterexample:
  "getDirectoryStats large_workspace ''/big'' > large_tree_threshold
   \<and> map_of (watchers (watchDirectory large_workspace ''/big'' retry_options FileWatcherService_new))
       ''/big'' = None
   \<and> watcherCount (watchDirectory large_workspace ''/big'' retry_options FileWatcherService_new) = 0
   \<and> Emit_ready ''/big''
       \<notin> set (emitted (watchDirectory large_workspace ''/big'' retry_options FileWatcherService_new))"
  by (simp add: large_workspace_estimate large_tree_threshold_def watchDirectory_def emit_def
      FileWatcherService_new_def)




lemma map_of_delete_None: "map_of xs d = None \<Longrightarrow> map_of (AList.delete k xs) d = None"
  by (simp add: AList.delete_conv)

























section \<open>Operations on a destroyed instance\<close>

lemma destroyed_context_value:
  "destroyed_context =
     LightweightContext_new\<lparr>workspacePath := ''/w'', isDestroyed := True\<rparr>"
  by (simp add: destroyed_context_def LightweightContext_cleanup_def
      LightweightContext_initialize_def LightweightContext_new_def empty_workspace_def
      externals_new_def stopWatching_def validateWorkspacePath_def loadGitignorePatterns_def
      scanWorkspace_def startWatching_def startMemoryMonitor_def stopMemoryMonitor_def
      LRUCache_clear_def LRUCache_new_def unwatchDirectory_def
      watchDirectory_def emit_def FileWatcherService_new_def Let_def)

text \<open>
  C5 (as amended). If the destroyed flag of a Workspace Index is set when one of
  \<open>searchFiles\<close>, \<open>getFilesByLanguage\<close>, \<open>getRecentFiles\<close>, \<open>forceCleanup\<close>, \<open>cleanup\<close>,
  \<open>scanWorkspace\<close>, \<open>emergencyCleanup\<close>, \<open>startWatching\<close>, \<open>startMemoryMonitor\<close> or
  \<open>notifyWatchers\<close> is called, the operation returns an inert result (the empty list, 0,
  or nothing at all), changes no state and does not throw. \<open>initialize\<close> checks the flag
  as well, but fails with the error \<open>Cannot initialize destroyed LightweightContext
  instance\<close>, leaving the instance and its collaborators as they were.
\<close>

theorem destroyed_instance_is_inert:
  assumes "isDestroyed ctx"
  shows "searchFiles now query limit ctx = ([], ctx)
       \<and> getFilesByLanguage language ctx = []
       \<and> getRecentFiles now hours ctx = []
       \<and> LightweightContext_forceCleanup now ctx = (0, ctx)
       \<and> LightweightContext_cleanup ctx service = (ctx, service)
       \<and> scanWorkspace now arrivals ctx = ctx
       \<and> emergencyCleanup now ctx = ctx
       \<and> startWatching fs ctx service = (ctx, service)
       \<and> startMemoryMonitor ctx = ctx
       \<and> notifyWatchers event filePath ctx = ctx
       \<and> LightweightContext_initialize env now path ctx ext = (Inl Destroyed_instance, ctx, ext)"
  using assms
  by (simp add: searchFiles_def getFilesByLanguage_def getRecentFiles_def
      LightweightContext_forceCleanup_def LightweightContext_cleanup_def scanWorkspace_def
      emergencyCleanup_def startWatching_def startMemoryMonitor_def notifyWatchers_def
      LightweightContext_initialize_def)

theorem destroyed_instance_is_inert_witness:
  "isDestroyed destroyed_context
   \<and> searchFiles 5 ''a'' 20 destroyed_context = ([], destroyed_context)
   \<and> LightweightContext_cleanup destroyed_context FileWatcherService_new
       = (destroyed_context, FileWatcherService_new)
   \<and> fst (LightweightContext_initialize empty_workspace 5 ''/w'' destroyed_context externals_new)
       = Inl Destroyed_instance"
proof -
  have d: "isDestroyed destroyed_context"
    by (simp add: destroyed_context_value)
  from destroyed_instance_is_inert [OF d, of 5 "''a''" 20 _ _ FileWatcherService_new _ _ _ _
      empty_workspace "''/w''" externals_new] d
  show ?thesis by simp
qed

text \<open>
  The claim as stated fails on an instance that was initialised and then cleaned up:
  \<open>initialize\<close> throws; \<open>getFileContent\<close> does not look at the flag and returns the text
  of the file; \<open>buildContext\<close> does not look at it either and appends to the history of
  the workspace.
\<close>

theorem destroyed_instance_counterexample:
  "isDestroyed destroyed_context
   \<and> fst (LightweightContext_initialize empty_workspace 5 ''/w'' destroyed_context externals_new)
       = Inl Destroyed_instance
   \<and> getFileContent (\<lambda>path. Some ''text'') ''/w/a.ts'' destroyed_context = Some ''text''
   \<and> persistence_calls (snd (snd (buildContext 5 ''q'' [] 2000 destroyed_context externals_new)))
       = [AddContextHistory ''/w'' ''q'' []]"
  by (simp add: destroyed_context_value LightweightContext_initialize_def getFileContent_def
      buildContext_def searchFiles_def LightweightContext_new_def externals_new_def Let_def)

section \<open>The lowered file limit\<close>

lemma update_absent: "map_of cs k = None \<Longrightarrow> AList.update k v cs = cs @ [(k, v)]"
  by (induction cs) (auto split: if_splits)

lemma set_fresh_under_capacity:
  assumes "map_of (cache c) k = None" and "int (length (cache c)) < maxSize c"
  shows "LRUCache_set now k v c =
     c\<lparr>cache := cache c @ [(k, \<lparr>entry_value = v, timestamp = now, accessCount = 1\<rparr>)],
       accessOrder := accessOrder c @ [k]\<rparr>"
  using assms by (simp add: LRUCache_set_def update_absent)

lemma validate_keeps_cache: "fileCache (validateWorkspacePath env ctx) = fileCache ctx"
  by (simp add: validateWorkspacePath_def split: option.splits)

lemma scanDirectory_fresh:
  assumes "distinct (map (\<lambda>a. fi_path (snd a)) arr)"
    and "\<forall>a \<in> set arr. map_of (cache (fileCache ctx)) (fi_path (snd a)) = None"
    and "int (length (cache (fileCache ctx)) + length arr) \<le> MAX_FILES ctx"
    and "MAX_FILES ctx \<le> maxSize (fileCache ctx)"
  shows "\<exists>c'. snd (scanDirectory arr ctx) = ctx\<lparr>fileCache := c'\<rparr>
       \<and> fst (scanDirectory arr ctx) = map snd arr
       \<and> maxSize c' = maxSize (fileCache ctx)
       \<and> length (cache c') = length (cache (fileCache ctx)) + length arr
       \<and> fst ` set (cache c') = fst ` set (cache (fileCache ctx)) \<union> (\<lambda>a. fi_path (snd a)) ` set arr"
  using assms
proof (induction arr arbitrary: ctx)
  case Nil
  show ?case by (auto intro!: exI [of _ "fileCache ctx"])
next
  case (Cons a arr)
  obtain now fileInfo where a: "a = (now, fileInfo)" by (cases a)
  let ?c = "fileCache ctx"
  let ?e = "\<lparr>entry_value = fileInfo, timestamp = now, accessCount = 1\<rparr>"
  let ?c1 = "?c\<lparr>cache := cache ?c @ [(fi_path fileInfo, ?e)],
      accessOrder := accessOrder ?c @ [fi_path fileInfo]\<rparr>"
  let ?ctx1 = "ctx\<lparr>fileCache := ?c1\<rparr>"
  have under: "int (length (cache ?c)) < MAX_FILES ctx" using Cons.prems(3) by simp
  have absent: "map_of (cache ?c) (fi_path fileInfo) = None" using Cons.prems(2) by (simp add: a)
  have set1: "LRUCache_set now (fi_path fileInfo) fileInfo ?c = ?c1"
    using set_fresh_under_capacity [OF absent] under Cons.prems(4) by simp
  have step: "scanDirectory (a # arr) ctx =
      (fileInfo # fst (scanDirectory arr ?ctx1), snd (scanDirectory arr ?ctx1))"
    using under by (simp add: a LRUCache_size_def set1 split: prod.splits)
  have p1: "distinct (map (\<lambda>a. fi_path (snd a)) arr)" using Cons.prems(1) by simp
  have p2: "\<forall>b \<in> set arr. map_of (cache (fileCache ?ctx1)) (fi_path (snd b)) = None"
    using Cons.prems(1,2) by (auto simp: a image_iff)
  have p3: "int (length (cache (fileCache ?ctx1)) + length arr) \<le> MAX_FILES ?ctx1"
    using Cons.prems(3) by simp
  have p4: "MAX_FILES ?ctx1 \<le> maxSize (fileCache ?ctx1)" using Cons.prems(4) by simp
  from Cons.IH [OF p1 p2 p3 p4] obtain c' where
    r: "snd (scanDirectory arr ?ctx1) = ?ctx1\<lparr>fileCache := c'\<rparr>"
      "fst (scanDirectory arr ?ctx1) = map snd arr"
      "maxSize c' = maxSize (fileCache ?ctx1)"
      "length (cache c') = length (cache (fileCache ?ctx1)) + length arr"
      "fst ` set (cache c') = fst ` set (cache (fileCache ?ctx1)) \<union> (\<lambda>a. fi_path (snd a)) ` set arr"
    by blast
  show ?case
    unfolding step using r by (intro exI [of _ c']) (auto simp: a)
qed

lemma scanned_paths_distinct: "distinct (map (\<lambda>a. fi_path (snd a)) (map (\<lambda>i. (t, scanned_file i)) [0..<n]))"
proof -
  have "inj_on (\<lambda>i. ''/w/'' @ replicate (Suc i) CHR ''f'') {0..<n}"
    by (rule inj_onI) (metis length_replicate nat.inject same_append_eq)
  then show ?thesis by (simp add: comp_def scanned_file_def distinct_map)
qed

lemma three_projects:
  "ignorePatterns ctx = default_ignorePatterns \<Longrightarrow>
   count_project_dirs ctx
     [(''app1'', Some (True, True)), (''app2'', Some (True, True)), (''app3'', Some (True, True))] 0
   = Some 3"
  by (simp add: shouldIgnore_def default_ignorePatterns_def line_break_def)

lemma multi_project_context_value:
  "\<exists>c'. multi_project_context =
       LightweightContext_new\<lparr>workspacePath := ''/w'', fileCache := c',
         projectInfo := Some (analyzeProject (map scanned_file [0..<200])), lastScanTime := 1,
         fileWatcherCleanup := True, memoryMonitorInterval := True, MAX_FILES := 200\<rparr>
     \<and> maxSize c' = 300 \<and> length (cache c') = 200
     \<and> fst ` set (cache c') = (\<lambda>i. ''/w/'' @ replicate (Suc i) CHR ''f'') ` {0..<200}"
proof -
  let ?arr = "map (\<lambda>i. (1::int, scanned_file i)) [0..<200]"
  let ?ctx1 = "LightweightContext_new\<lparr>fileWatcherCleanup := False, scanDebounceTimer := No_timer,
      MAX_FILES := 200, workspacePath := ''/w'',
      fileCache := LRUCache_clear (LRUCache_new 300 MAX_CACHE_AGE)\<rparr>"
  have fc: "fileCache ?ctx1 = LRUCache_new 300 MAX_CACHE_AGE"
    by (simp add: LRUCache_clear_def LRUCache_new_def)
  have h2: "\<forall>a \<in> set ?arr. map_of (cache (fileCache ?ctx1)) (fi_path (snd a)) = None"
    by (simp add: LRUCache_clear_def LRUCache_new_def)
  have h3: "int (length (cache (fileCache ?ctx1)) + length ?arr) \<le> MAX_FILES ?ctx1"
    by (simp add: LRUCache_clear_def LRUCache_new_def)
  have h4: "MAX_FILES ?ctx1 \<le> maxSize (fileCache ?ctx1)"
    by (simp add: LRUCache_clear_def LRUCache_new_def)
  from scanDirectory_fresh [OF scanned_paths_distinct h2 h3 h4] obtain c' where
    r: "snd (scanDirectory ?arr ?ctx1) = ?ctx1\<lparr>fileCache := c'\<rparr>"
      "fst (scanDirectory ?arr ?ctx1) = map snd ?arr"
      "maxSize c' = maxSize (fileCache ?ctx1)"
      "length (cache c') = length (cache (fileCache ?ctx1)) + length ?arr"
      "fst ` set (cache c') = fst ` set (cache (fileCache ?ctx1)) \<union> (\<lambda>a. fi_path (snd a)) ` set ?arr"
    by blast
  have scan: "scanDirectory ?arr ?ctx1 = (map scanned_file [0..<200], ?ctx1\<lparr>fileCache := c'\<rparr>)"
    using r(1,2) by (simp add: prod_eq_iff comp_def)
  have val: "validateWorkspacePath (multi_project_workspace 200)
        (LightweightContext_new\<lparr>fileWatcherCleanup := False, scanDebounceTimer := No_timer\<rparr>)
      = LightweightContext_new\<lparr>fileWatcherCleanup := False, scanDebounceTimer := No_timer,
          MAX_FILES := 200\<rparr>"
    using three_projects [of "LightweightContext_new\<lparr>fileWatcherCleanup := False,
        scanDebounceTimer := No_timer\<rparr>"]
    by (simp add: validateWorkspacePath_def multi_project_workspace_def LightweightContext_new_def)
  have "multi_project_context =
       LightweightContext_new\<lparr>workspacePath := ''/w'', fileCache := c',
         projectInfo := Some (analyzeProject (map scanned_file [0..<200])), lastScanTime := 1,
         fileWatcherCleanup := True, memoryMonitorInterval := True, MAX_FILES := 200\<rparr>"
    unfolding multi_project_context_def LightweightContext_initialize_def
    apply (simp add: stopWatching_def Let_def val)
    apply (simp add: multi_project_workspace_def loadGitignorePatterns_def scanWorkspace_def
        LightweightContext_new_def Let_def)
    apply (simp add: scan [unfolded LightweightContext_new_def, simplified]
        startWatching_def startMemoryMonitor_def stopMemoryMonitor_def)
    done
  moreover have "maxSize c' = 300" using r(3) by (simp add: LRUCache_clear_def LRUCache_new_def)
  moreover have "length (cache c') = 200" using r(4) by (simp add: LRUCache_clear_def LRUCache_new_def)
  moreover have "fst ` set (cache c') = (\<lambda>i. ''/w/'' @ replicate (Suc i) CHR ''f'') ` {0..<200}"
    using r(5) by (simp add: LRUCache_clear_def LRUCache_new_def image_image scanned_file_def)
  ultimately show ?thesis by blast
qed

lemma new_ts_not_binary: "isBinaryFile ''/w/new.ts'' = False"
  by (simp add: isBinaryFile_def extname_def basename_def toLowerCase_def toLowerCase_char_def Let_def)

text \<open>
  C6. \<open>validateWorkspacePath\<close> lowers the field \<open>MAX_FILES\<close> and never touches the cache,
  whose capacity was fixed by the constructor. After \<open>initialize\<close> on a root with three
  project-like subdirectories in which the scan accepts 200 files, \<open>MAX_FILES\<close> is 200,
  the capacity of the cache is still 300 and the cache holds 200 entries; one \<open>add\<close>
  event for a new file then brings it to 201 entries, above the lowered bound.
\<close>

theorem lowered_limit_is_not_the_cache_capacity:
  "fileCache (validateWorkspacePath env ctx) = fileCache ctx
   \<and> MAX_FILES multi_project_context = 200
   \<and> maxSize (fileCache multi_project_context) = 300
   \<and> LRUCache_size (fileCache multi_project_context) = 200
   \<and> LRUCache_size (fileCache (debounce_fire 2 (Some (True, 10, 0))
        (handleFileSystemEvent Add ''/w/new.ts'' multi_project_context))) = 201"
proof -
  from multi_project_context_value obtain c' where
    v: "multi_project_context =
       LightweightContext_new\<lparr>workspacePath := ''/w'', fileCache := c',
         projectInfo := Some (analyzeProject (map scanned_file [0..<200])), lastScanTime := 1,
         fileWatcherCleanup := True, memoryMonitorInterval := True, MAX_FILES := 200\<rparr>"
    and mx: "maxSize c' = 300" and len: "length (cache c') = 200"
    and keys: "fst ` set (cache c') = (\<lambda>i. ''/w/'' @ replicate (Suc i) CHR ''f'') ` {0..<200}"
    by blast
  have "''/w/new.ts'' \<notin> fst ` set (cache c')" unfolding keys by auto
  then have absent: "map_of (cache c') ''/w/new.ts'' = None" by (simp add: map_of_eq_None_iff)
  have under: "int (length (cache c')) < maxSize c'" using mx len by simp
  have fc: "fileCache multi_project_context = c'" by (simp add: v)
  have "fileCache (debounce_fire 2 (Some (True, 10, 0))
        (handleFileSystemEvent Add ''/w/new.ts'' multi_project_context))
      = LRUCache_set 2 ''/w/new.ts''
          \<lparr>fi_path = ''/w/new.ts'', fi_name = basename ''/w/new.ts'', fi_size = 10,
           fi_language = (case map_of languageMap (toLowerCase (extname ''/w/new.ts'')) of
                            Some l \<Rightarrow> l | None \<Rightarrow> ''unknown''),
           fi_lastModified = 0, fi_relevanceScore = None\<rparr> c'"
    by (simp add: debounce_fire_def handleFileSystemEvent_def addFileToCache_def
        notifyWatchers_def updateProjectInfo_def new_ts_not_binary fc Let_def)
  then have "LRUCache_size (fileCache (debounce_fire 2 (Some (True, 10, 0))
        (handleFileSystemEvent Add ''/w/new.ts'' multi_project_context))) = 201"
    by (simp add: set_fresh_under_capacity [OF absent under] LRUCache_size_def len)
  then show ?thesis
    using mx len by (simp add: validate_keeps_cache fc LRUCache_size_def) (simp add: v)
qed

section \<open>Size of the pool\<close>

lemma rev_dropWhile_id:
  "xs = [] \<or> \<not> P (last xs) \<Longrightarrow> rev (dropWhile P (rev xs)) = xs"
  by (cases xs rule: rev_cases) auto

lemma normalizePath_idem: "normalizePath (normalizePath p) = normalizePath p"
proof -
  let ?f = "\<lambda>c. if c = CHR 0x5C then CHR ''/'' else c"
  let ?q = "normalizePath p"
  have nb: "CHR 0x5C \<notin> set ?q"
    unfolding normalizePath_def using set_dropWhileD by fastforce
  then have m: "map ?f ?q = ?q" by (intro map_idI) auto
  have "?q = [] \<or> last ?q \<noteq> CHR ''/''"
  proof (cases "?q = []")
    case False
    let ?d = "dropWhile (\<lambda>c. c = CHR ''/'') (rev (map ?f p))"
    have q: "?q = rev ?d" by (simp add: normalizePath_def)
    with False have ne: "?d \<noteq> []" by simp
    have "last ?q = hd ?d" using q ne by (simp add: last_rev)
    moreover have "hd ?d \<noteq> CHR ''/''" using hd_dropWhile [OF ne] by simp
    ultimately show ?thesis by simp
  qed simp
  then have "rev (dropWhile (\<lambda>c. c = CHR ''/'') (rev ?q)) = ?q"
    by (intro rev_dropWhile_id) auto
  then show ?thesis
    by (subst (1) normalizePath_def) (simp only: m)
qed

lemma insts_ok_mono: "insts_ok T insts \<Longrightarrow> T \<le> T' \<Longrightarrow> insts_ok T' insts"
  by (fastforce simp: insts_ok_def)

lemma insts_ok_delete: "insts_ok T insts \<Longrightarrow> insts_ok T (AList.delete k insts)"
proof -
  assume ok: "insts_ok T insts"
  have "set (AList.delete k insts) \<subseteq> set insts" by (auto simp: AList.delete_eq)
  moreover have "distinct (map fst (AList.delete k insts))"
    using ok by (simp add: insts_ok_def distinct_delete)
  ultimately show ?thesis using ok unfolding insts_ok_def by blast
qed

lemma insts_ok_update:
  assumes "insts_ok T insts" and "lastAccessed i \<le> T" and "normalizePath k = k" and "k \<noteq> []"
  shows "insts_ok T (AList.update k i insts)"
proof -
  have "set (AList.update k i insts) \<subseteq> insert (k, i) (set insts)"
    by (induction insts) auto
  then show ?thesis using assms by (fastforce simp: insts_ok_def distinct_update)
qed

lemma length_delete_present:
  "map_of insts k \<noteq> None \<Longrightarrow> length (AList.delete k insts) < length insts"
  by (induction insts) (auto simp: less_Suc_eq_le length_delete_le split: if_splits)

lemma keys_deactivate: "map fst (deactivate p insts) = map fst insts"
  by (auto simp: deactivate_def update_keys map_of_eq_None_iff image_iff split: option.splits)

lemma insts_ok_deactivate: "insts_ok T insts \<Longrightarrow> insts_ok T (deactivate p insts)"
proof -
  assume ok: "insts_ok T insts"
  show ?thesis
  proof (cases "map_of insts p")
    case None
    then show ?thesis using ok by (simp add: deactivate_def)
  next
    case (Some prev)
    then have mem: "(p, prev) \<in> set insts" by (rule map_of_SomeD)
    then have "lastAccessed (prev\<lparr>isActive := False\<rparr>) \<le> T" "normalizePath p = p" "p \<noteq> []"
      using ok by (auto simp: insts_ok_def)
    from insts_ok_update [OF ok this] show ?thesis by (simp add: deactivate_def Some)
  qed
qed

lemma length_deactivate: "length (deactivate p insts) = length insts"
  using keys_deactivate [of p insts] by (metis length_map)

lemma map_of_deactivate_None: "map_of (deactivate p insts) k = None \<longleftrightarrow> map_of insts k = None"
  using keys_deactivate [of p insts] by (metis map_of_eq_None_iff set_map)

lemma closeWorkspace_instances:
  "instances (fst (closeWorkspace p (m, ext))) = AList.delete (normalizePath p) (instances m)"
  by (auto simp: closeWorkspace_def Let_def map_of_eq_None_iff split: option.splits prod.splits)

lemma oldest_inactive_some:
  assumes "(\<exists>p. oldestPath = Some p \<and> p \<in> K)
         \<or> (\<exists>(p, i) \<in> set insts. \<not> isActive i \<and> lastAccessed i < oldestTime)"
    and "fst ` set insts \<subseteq> K"
  shows "\<exists>p. fst (oldest_inactive insts (oldestPath, oldestTime)) = Some p \<and> p \<in> K"
  using assms
proof (induction insts arbitrary: oldestPath oldestTime)
  case Nil
  then show ?case by simp
next
  case (Cons a insts)
  obtain path inst where a: "a = (path, inst)" by (cases a)
  show ?case
  proof (cases "\<not> isActive inst \<and> lastAccessed inst < oldestTime")
    case True
    have "\<exists>p. fst (oldest_inactive insts (Some path, lastAccessed inst)) = Some p \<and> p \<in> K"
      using Cons.prems(2) by (intro Cons.IH) (auto simp: a)
    then show ?thesis using True by (simp add: a)
  next
    case False
    have "\<exists>p. fst (oldest_inactive insts (oldestPath, oldestTime)) = Some p \<and> p \<in> K"
      using Cons.prems False by (intro Cons.IH) (auto simp: a)
    then show ?thesis using False by (auto simp: a)
  qed
qed

lemma oldest_inactive_none:
  "fst (oldest_inactive insts (None, oldestTime)) = None \<Longrightarrow>
   oldest_inactive insts (None, oldestTime) = (None, oldestTime)"
proof (induction insts)
  case Nil
  then show ?case by simp
next
  case (Cons a insts)
  obtain path inst where a: "a = (path, inst)" by (cases a)
  show ?case
  proof (cases "\<not> isActive inst \<and> lastAccessed inst < oldestTime")
    case True
    have "\<exists>p. fst (oldest_inactive insts (Some path, lastAccessed inst)) = Some p \<and> p \<in> UNIV"
      by (intro oldest_inactive_some) auto
    then show ?thesis using Cons.prems True by (simp add: a)
  next
    case False
    then show ?thesis using Cons by (auto simp: a)
  qed
qed

lemma oldest_inactive_all_active:
  "\<forall>(p, i) \<in> set insts. isActive i \<Longrightarrow> oldest_inactive insts acc = acc"
proof (induction insts arbitrary: acc)
  case Nil
  then show ?case by simp
next
  case (Cons a insts)
  then show ?case by (cases a; cases acc) auto
qed

lemma oldest_not_current_some:
  assumes "(\<exists>p. oldestPath = Some p \<and> p \<in> K)
         \<or> (\<exists>(p, i) \<in> set insts. Some p \<noteq> current \<and> lastAccessed i < oldestTime)"
    and "fst ` set insts \<subseteq> K"
  shows "\<exists>p. fst (oldest_not_current current insts (oldestPath, oldestTime)) = Some p \<and> p \<in> K"
  using assms
proof (induction insts arbitrary: oldestPath oldestTime)
  case Nil
  then show ?case by simp
next
  case (Cons a insts)
  obtain path inst where a: "a = (path, inst)" by (cases a)
  show ?case
  proof (cases "Some path \<noteq> current \<and> lastAccessed inst < oldestTime")
    case True
    have "\<exists>p. fst (oldest_not_current current insts (Some path, lastAccessed inst)) = Some p \<and> p \<in> K"
      using Cons.prems(2) by (intro Cons.IH) (auto simp: a)
    then show ?thesis using True by (simp add: a)
  next
    case False
    have "\<exists>p. fst (oldest_not_current current insts (oldestPath, oldestTime)) = Some p \<and> p \<in> K"
      using Cons.prems False by (intro Cons.IH) (auto simp: a)
    then show ?thesis using False by (auto simp: a)
  qed
qed

text \<open>When the clock has advanced past every access, a pool of two or more loses one.\<close>

lemma evict_removes_one:
  assumes "insts_ok T (instances m)" and "T < now" and "2 \<le> length (instances m)"
  shows "\<exists>p \<in> fst ` set (instances m).
           instances (fst (evictOldestInactiveInstance now (m, ext))) = AList.delete p (instances m)"
proof -
  let ?insts = "instances m"
  let ?K = "fst ` set ?insts"
  let ?found = "oldest_inactive ?insts (None, now)"
  let ?res = "if \<not> truthy (fst ?found)
      then oldest_not_current (currentWorkspacePath m) ?insts ?found else ?found"
  have keys: "\<forall>p \<in> ?K. normalizePath p = p \<and> p \<noteq> []" and old: "\<forall>(p, i) \<in> set ?insts. lastAccessed i < now"
    and d: "distinct (map fst ?insts)"
    using assms(1,2) by (fastforce simp: insts_ok_def)+
  have "\<exists>p. fst ?res = Some p \<and> p \<in> ?K"
  proof (cases "\<exists>(p, i) \<in> set ?insts. \<not> isActive i")
    case True
    then have "\<exists>(p, i) \<in> set ?insts. \<not> isActive i \<and> lastAccessed i < now" using old by fastforce
    then obtain p where p: "fst ?found = Some p" "p \<in> ?K"
      using oldest_inactive_some [of None ?K ?insts now] by auto
    moreover have "p \<noteq> []" using keys p(2) by blast
    ultimately have "truthy (fst ?found)" by (simp add: truthy_def)
    then show ?thesis using p by simp
  next
    case False
    have none: "fst ?found = None"
    proof (rule ccontr)
      assume "fst ?found \<noteq> None"
      have "?found = (None, now)" using False by (intro oldest_inactive_all_active) auto
      with \<open>fst ?found \<noteq> None\<close> show False by simp
    qed
    then have f: "?found = (None, now)" by (rule oldest_inactive_none)
    obtain a b rest where l: "?insts = a # b # rest"
      using assms(3) by (cases ?insts; cases "tl ?insts") auto
    have "fst a \<noteq> fst b" using d by (simp add: l)
    then have "Some (fst a) \<noteq> currentWorkspacePath m \<or> Some (fst b) \<noteq> currentWorkspacePath m"
      by (metis option.inject)
    moreover have "a \<in> set ?insts" "b \<in> set ?insts" by (simp_all add: l)
    ultimately obtain x where x: "x \<in> set ?insts" "Some (fst x) \<noteq> currentWorkspacePath m"
      by blast
    have "lastAccessed (snd x) < now" using old x(1) by (auto simp: case_prod_beta)
    with x have "\<exists>(p, i) \<in> set ?insts. Some p \<noteq> currentWorkspacePath m \<and> lastAccessed i < now"
      by (auto simp: case_prod_beta)
    then have "\<exists>p. fst (oldest_not_current (currentWorkspacePath m) ?insts (None, now)) = Some p \<and> p \<in> ?K"
      by (intro oldest_not_current_some) auto
    then show ?thesis using none f by (simp add: truthy_def)
  qed
  then obtain p where p: "fst ?res = Some p" "p \<in> ?K" by blast
  have n: "normalizePath p = p" and ne: "p \<noteq> []" using keys p(2) by blast+
  have t: "truthy (fst ?res)" using p(1) ne by (simp add: truthy_def)
  have "evictOldestInactiveInstance now (m, ext) =
      (if truthy (fst ?res) then closeWorkspace (the (fst ?res)) (m, ext) else (m, ext))"
    by (simp add: evictOldestInactiveInstance_def Let_def case_prod_beta)
  then have "evictOldestInactiveInstance now (m, ext) = closeWorkspace p (m, ext)"
    using t by (simp only: p(1) if_True option.sel)
  then have "instances (fst (evictOldestInactiveInstance now (m, ext))) = AList.delete p ?insts"
    by (simp add: closeWorkspace_instances n)
  with p(2) show ?thesis by blast
qed

lemma initialize_success_path:
  "fst (LightweightContext_initialize env now path ctx ext) = Inr u \<Longrightarrow> path \<noteq> []"
  by (auto simp: LightweightContext_initialize_def Let_def case_prod_beta split: if_splits)

lemma getOrCreate_existing:
  assumes "map_of (instances m) (normalizePath path) = Some inst"
  shows "instances (fst (snd (getOrCreateContext env now path (m, ext)))) =
     (if truthy (currentWorkspacePath m) \<and> currentWorkspacePath m \<noteq> Some (normalizePath path)
      then deactivate (the (currentWorkspacePath m))
             (AList.update (normalizePath path) (inst\<lparr>lastAccessed := now, isActive := True\<rparr>) (instances m))
      else AList.update (normalizePath path) (inst\<lparr>lastAccessed := now, isActive := True\<rparr>) (instances m))"
  using assms by (simp add: getOrCreateContext_def Let_def)

lemma getOrCreate_new:
  assumes "map_of (instances m) (normalizePath path) = None"
  shows "instances (fst (snd (getOrCreateContext env now path (m, ext)))) =
     (let np = normalizePath path;
          w1 = (if length (instances m) \<ge> MAX_INSTANCES
                then evictOldestInactiveInstance now (m, ext) else (m, ext));
          insts2 = (if truthy (currentWorkspacePath (fst w1))
                    then deactivate (the (currentWorkspacePath (fst w1))) (instances (fst w1))
                    else instances (fst w1));
          inst = \<lparr>inst_context = LightweightContext_new, inst_workspacePath = np,
                  createdAt = now, lastAccessed = now, isActive = True\<rparr>;
          r = LightweightContext_initialize env now np LightweightContext_new (snd w1)
      in case fst r of
           Inl e \<Rightarrow> AList.delete np (AList.update np inst insts2)
         | Inr u \<Rightarrow> AList.update np (inst\<lparr>inst_context := fst (snd r)\<rparr>) (AList.update np inst insts2))"
  using assms
  by (simp add: getOrCreateContext_def Let_def case_prod_beta split: sum.splits)

lemma getOrCreate_ok:
  assumes "pool_ok T (m, ext)" and "T < now"
  shows "pool_ok now (snd (getOrCreateContext env now path (m, ext)))"
proof -
  let ?np = "normalizePath path"
  let ?insts = "instances m"
  from assms(1) have ok: "insts_ok T ?insts" and len: "length ?insts \<le> MAX_INSTANCES"
    by (simp_all add: pool_ok_def)
  have le: "T \<le> now" using assms(2) by simp
  have idem: "normalizePath ?np = ?np" by (rule normalizePath_idem)
  show ?thesis
  proof (cases "map_of ?insts ?np")
    case (Some inst)
    then have "(?np, inst) \<in> set ?insts" by (rule map_of_SomeD)
    then have ne: "?np \<noteq> []" using ok by (auto simp: insts_ok_def)
    let ?i1 = "AList.update ?np (inst\<lparr>lastAccessed := now, isActive := True\<rparr>) ?insts"
    have ok1: "insts_ok now ?i1"
      using insts_ok_update [OF insts_ok_mono [OF ok le], of "inst\<lparr>lastAccessed := now, isActive := True\<rparr>" ?np]
        idem ne by simp
    have len1: "length ?i1 = length ?insts"
      using Some by (rule length_update_present)
    show ?thesis
      using ok1 len1 len insts_ok_deactivate [OF ok1] length_deactivate [of _ ?i1]
      by (simp add: pool_ok_def getOrCreate_existing [OF Some])
  next
    case None
    let ?w1 = "if length ?insts \<ge> MAX_INSTANCES
        then evictOldestInactiveInstance now (m, ext) else (m, ext)"
    let ?i1 = "instances (fst ?w1)"
    have w1: "insts_ok T ?i1 \<and> length ?i1 < MAX_INSTANCES \<and> map_of ?i1 ?np = None"
    proof (cases "length ?insts \<ge> MAX_INSTANCES")
      case True
      then have two: "2 \<le> length ?insts" by (simp add: MAX_INSTANCES_def)
      from evict_removes_one [OF ok assms(2) two, of ext] obtain p where
        p: "p \<in> fst ` set ?insts"
        "instances (fst (evictOldestInactiveInstance now (m, ext))) = AList.delete p ?insts"
        by blast
      have "map_of ?insts p \<noteq> None" using p(1) by (simp add: map_of_eq_None_iff)
      then have "length (AList.delete p ?insts) < length ?insts" by (rule length_delete_present)
      moreover have "map_of (AList.delete p ?insts) ?np = None"
        using None by (simp add: delete_conv')
      ultimately show ?thesis using True p(2) len insts_ok_delete [OF ok, of p] by simp
    next
      case False
      then show ?thesis using ok None by simp
    qed
    let ?i2 = "if truthy (currentWorkspacePath (fst ?w1))
        then deactivate (the (currentWorkspacePath (fst ?w1))) ?i1 else ?i1"
    have i2: "insts_ok T ?i2" "length ?i2 < MAX_INSTANCES" "map_of ?i2 ?np = None"
    proof -
      show "insts_ok T ?i2" using w1 insts_ok_deactivate [of T ?i1] by (simp split: if_splits)
      show "length ?i2 < MAX_INSTANCES" using w1 by (simp add: length_deactivate split: if_splits)
      show "map_of ?i2 ?np = None" using w1 by (simp add: map_of_deactivate_None split: if_splits)
    qed
    let ?inst = "\<lparr>inst_context = LightweightContext_new, inst_workspacePath = ?np,
        createdAt = now, lastAccessed = now, isActive = True\<rparr>"
    let ?r = "LightweightContext_initialize env now ?np LightweightContext_new (snd ?w1)"
    have res: "instances (fst (snd (getOrCreateContext env now path (m, ext)))) =
        (case fst ?r of
           Inl e \<Rightarrow> AList.delete ?np (AList.update ?np ?inst ?i2)
         | Inr u \<Rightarrow> AList.update ?np (?inst\<lparr>inst_context := fst (snd ?r)\<rparr>) (AList.update ?np ?inst ?i2))"
      using getOrCreate_new [OF None, of env now ext] by (simp add: Let_def)
    show ?thesis
    proof (cases "fst ?r")
      case (Inl e)
      have "AList.delete ?np (AList.update ?np ?inst ?i2) = AList.delete ?np ?i2"
        by (rule delete_update_same)
      moreover have "insts_ok now (AList.delete ?np ?i2)"
        using insts_ok_delete [OF insts_ok_mono [OF i2(1) le]] .
      moreover have "length (AList.delete ?np ?i2) \<le> length ?i2" by (rule length_delete_le)
      ultimately show ?thesis using i2(2) by (simp add: pool_ok_def res Inl)
    next
      case (Inr u)
      then have ne: "?np \<noteq> []" by (rule initialize_success_path)
      let ?inst' = "?inst\<lparr>inst_context := fst (snd ?r)\<rparr>"
      have "AList.update ?np ?inst' (AList.update ?np ?inst ?i2) = AList.update ?np ?inst' ?i2"
        by simp
      moreover have "insts_ok now (AList.update ?np ?inst' ?i2)"
        using insts_ok_update [OF insts_ok_mono [OF i2(1) le], of ?inst' ?np] idem ne by simp
      moreover have "length (AList.update ?np ?inst' ?i2) = Suc (length ?i2)"
        using i2(3) by (rule length_update_absent)
      ultimately show ?thesis using i2(2) by (simp add: pool_ok_def res Inr)
    qed
  qed
qed

lemma closeWorkspace_ok:
  assumes "pool_ok T w" and "T \<le> now"
  shows "pool_ok now (closeWorkspace p w)"
proof -
  obtain m ext where w: "w = (m, ext)" by (cases w)
  have "length (AList.delete (normalizePath p) (instances m)) \<le> length (instances m)"
    by (rule length_delete_le)
  then show ?thesis
    using assms insts_ok_delete [OF insts_ok_mono, of T "instances m" now "normalizePath p"]
    by (simp add: pool_ok_def w closeWorkspace_instances)
qed

lemma fold_closeWorkspace_ok:
  "pool_ok T w \<Longrightarrow> pool_ok T (fold closeWorkspace ps w)"
  by (induction ps arbitrary: w) (simp_all add: closeWorkspace_ok)

lemma apply_pool_op_ok:
  assumes "pool_ok T w" and "T < now"
  shows "pool_ok now (apply_pool_op now op w)"
proof (cases op)
  case (GetOrCreate env path)
  obtain m ext where w: "w = (m, ext)" by (cases w)
  show ?thesis using getOrCreate_ok [of T m ext now env path] assms by (simp add: GetOrCreate w)
next
  case (Close path)
  then show ?thesis using closeWorkspace_ok [OF assms(1), of now path] assms(2) by simp
next
  case ForceCleanup
  obtain m ext where w: "w = (m, ext)" by (cases w)
  have "pool_ok now w" using assms by (auto simp: pool_ok_def intro: insts_ok_mono)
  then show ?thesis
    by (simp add: ForceCleanup w WorkspaceContextManager_forceCleanup_def Let_def
        fold_closeWorkspace_ok [unfolded w])
qed

lemma run_pool_ok:
  assumes "pool_ok T w" and "sorted_wrt (<) (T # map fst ops)"
  shows "pool_ok (last (T # map fst ops)) (run_pool ops w)"
  using assms
proof (induction ops arbitrary: T w)
  case Nil
  then show ?case by simp
next
  case (Cons a ops)
  obtain now op where a: "a = (now, op)" by (cases a)
  have lt: "T < now" and srt: "sorted_wrt (<) (now # map fst ops)"
    using Cons.prems(2) by (auto simp: a)
  from Cons.IH [OF apply_pool_op_ok [OF Cons.prems(1) lt] srt, of op]
  show ?case by (simp add: a)
qed

text \<open>
  When the operations of a run do not overlap (each has returned before the next one
  starts, as \<open>run_pool\<close> executes them) and each is made at a later clock reading than the
  one before, the pool never holds more than \<open>MAX_INSTANCES\<close> instances. Calls that overlap
  at the \<open>await\<close> of \<open>getOrCreateContext\<close> are outside this statement.
\<close>

lemma pool_bounded_when_clock_advances:
  assumes "sorted_wrt (<) (map fst ops)"
  shows "length (instances (fst (run_pool ops (WorkspaceContextManager_new, externals_new))))
           \<le> MAX_INSTANCES"
proof (cases ops)
  case Nil
  then show ?thesis by (simp add: WorkspaceContextManager_new_def)
next
  case (Cons a rest)
  have init: "pool_ok (fst a - 1) (WorkspaceContextManager_new, externals_new)"
    by (simp add: pool_ok_def insts_ok_def WorkspaceContextManager_new_def)
  have "sorted_wrt (<) ((fst a - 1) # map fst ops)"
    using assms by (auto simp: Cons)
  from run_pool_ok [OF init this] show ?thesis by (simp add: pool_ok_def)
qed

lemma initialize_empty_workspace:
  assumes "path \<noteq> []"
  shows "LightweightContext_initialize empty_workspace now path LightweightContext_new ext =
     (Inr (), initialized_context now path,
      \<lparr>watcher_service = emit (Emit_directory_skipped path ''emergency_disabled'') (watcher_service ext),
       persistence_calls = persistence_calls ext @ [UpdateProjectInfo path (analyzeProject [])]\<rparr>)"
  using assms
  by (simp add: LightweightContext_initialize_def LightweightContext_new_def empty_workspace_def
      stopWatching_def validateWorkspacePath_def loadGitignorePatterns_def
      scanWorkspace_def startWatching_def startMemoryMonitor_def stopMemoryMonitor_def
      LRUCache_clear_def LRUCache_new_def watchDirectory_def initialized_context_def Let_def)

lemma norm: "normalizePath ''/w1'' = ''/w1''" "normalizePath ''/w2'' = ''/w2''"
  "normalizePath ''/w3'' = ''/w3''" "normalizePath ''/w4'' = ''/w4''"
  "normalizePath ''/w5'' = ''/w5''" "normalizePath ''/w6'' = ''/w6''"
  by (simp_all add: normalizePath_def)

text \<open>
  C9. Six \<open>getOrCreateContext\<close> calls for six different workspaces, all made while
  \<open>Date.now()\<close> returns 1000, leave six instances in the pool, one more than
  \<open>MAX_INSTANCES\<close>: at the sixth call \<open>evictOldestInactiveInstance\<close> starts its search
  from \<open>oldestTime = Date.now()\<close> and looks for an instance accessed strictly before
  it, finds none and evicts nothing.
\<close>

theorem pool_exceeds_max_instances:
  "map fst (instances (fst (run_pool six_workspaces (WorkspaceContextManager_new, externals_new))))
     = [''/w1'', ''/w2'', ''/w3'', ''/w4'', ''/w5'', ''/w6'']
   \<and> length (instances (fst (run_pool six_workspaces (WorkspaceContextManager_new, externals_new))))
       > MAX_INSTANCES"
  by (simp add: six_workspaces_def WorkspaceContextManager_new_def getOrCreateContext_def norm
      initialize_empty_workspace MAX_INSTANCES_def evictOldestInactiveInstance_def truthy_def
      deactivate_def Let_def)

text \<open>The same run with the sixth call one millisecond later evicts \<open>/w1\<close>.\<close>

lemma pool_evicts_when_clock_advanced:
  "map fst (instances (fst (run_pool (butlast six_workspaces @ [(1001, GetOrCreate empty_workspace ''/w6'')])
       (WorkspaceContextManager_new, externals_new))))
     = [''/w2'', ''/w3'', ''/w4'', ''/w5'', ''/w6'']"
  by (simp add: six_workspaces_def WorkspaceContextManager_new_def getOrCreateContext_def norm
      initialize_empty_workspace MAX_INSTANCES_def evictOldestInactiveInstance_def truthy_def
      deactivate_def closeWorkspace_def Let_def case_prod_beta)

end
